theory Spec2Isabelle
  imports Complex_Main
begin

section \<open>Geometry.h: the scalar type\<close>

text \<open>
  \<^verbatim>\<open>using Scalar_t = double;\<close> (and \<^verbatim>\<open>Coordinate_t\<close>, \<^verbatim>\<open>Distance_t\<close> are aliases of it).
  A double is modelled as an IEEE 754 binary64 datum: a finite number
  \<open>(-1)^s * m * 2^e\<close> (sign, integer significand, exponent), an infinity with its sign,
  or a NaN (payloads are not distinguished). The canonical finite values are those with
  \<open>2^52 \<le> m < 2^53\<close> and \<open>-1074 \<le> e \<le> 971\<close> (normal) or \<open>m < 2^52\<close> and \<open>e = -1074\<close>
  (subnormal and the two zeros). Every arithmetic operation below rounds to a canonical value.
  Arithmetic is round-to-nearest, ties-to-even, each operation rounded once (no fused
  multiply-add, no extended precision).
\<close>

datatype double = Finite bool nat int | Infinity bool | NaN

fun bit_length :: "nat \<Rightarrow> nat" where
  "bit_length n = (if n = 0 then 0 else Suc (bit_length (n div 2)))"

declare bit_length.simps [simp del]

text \<open>
  \<open>round_double s m e sticky\<close> rounds the exact magnitude \<open>x\<close> with
  \<open>m * 2^e \<le> x < (m + 1) * 2^e\<close> to binary64, where \<open>sticky\<close> says that \<open>x\<close> is strictly
  above \<open>m * 2^e\<close>. Callers that set \<open>sticky\<close> pass at least 55 significant bits in \<open>m\<close>,
  so that the discarded part decides the rounding.
\<close>

definition round_double :: "bool \<Rightarrow> nat \<Rightarrow> int \<Rightarrow> bool \<Rightarrow> double" where
  "round_double s m e sticky =
     (let e1 = max (e + int (bit_length m) - 53) (- 1074);
          q = (if e1 \<le> e then m * 2 ^ nat (e - e1)
               else (let k = nat (e1 - e);
                         d = m div 2 ^ k;
                         r = m mod 2 ^ k;
                         half = 2 ^ (k - 1)
                     in if half < r \<or> (r = half \<and> (sticky \<or> odd d)) then d + 1 else d));
          q2 = (if q = 2 ^ 53 then 2 ^ 52 else q);
          e2 = (if q = 2 ^ 53 then e1 + 1 else e1)
      in if q2 = 0 then Finite s 0 (- 1074)
         else if 971 < e2 then Infinity s
         else Finite s q2 e2)"

definition double_of_int :: "int \<Rightarrow> double" where
  "double_of_int i = round_double (i < 0) (nat \<bar>i\<bar>) 0 False"

definition signed :: "bool \<Rightarrow> nat \<Rightarrow> int" where
  "signed s m = (if s then - int m else int m)"

fun is_nan :: "double \<Rightarrow> bool" where
  "is_nan NaN = True"
| "is_nan _ = False"

fun is_finite :: "double \<Rightarrow> bool" where
  "is_finite (Finite s m e) = True"
| "is_finite _ = False"

fun is_zero :: "double \<Rightarrow> bool" where
  "is_zero (Finite s m e) = (m = 0)"
| "is_zero _ = False"

fun fneg :: "double \<Rightarrow> double" where
  "fneg (Finite s m e) = Finite (\<not> s) m e"
| "fneg (Infinity s) = Infinity (\<not> s)"
| "fneg NaN = NaN"

text \<open>\<^verbatim>\<open>std::fabs\<close>\<close>

fun fabs :: "double \<Rightarrow> double" where
  "fabs (Finite s m e) = Finite False m e"
| "fabs (Infinity s) = Infinity False"
| "fabs NaN = NaN"

text \<open>
  \<^verbatim>\<open>a + b\<close>. The sum of two zeros is \<open>-0\<close> only when both are; a zero added to a
  non-zero number leaves it; an exact cancellation gives \<open>+0\<close>.
\<close>

fun fadd :: "double \<Rightarrow> double \<Rightarrow> double" where
  "fadd NaN _ = NaN"
| "fadd _ NaN = NaN"
| "fadd (Infinity s) (Infinity t) = (if s = t then Infinity s else NaN)"
| "fadd (Infinity s) (Finite t m e) = Infinity s"
| "fadd (Finite s m e) (Infinity t) = Infinity t"
| "fadd (Finite s m e) (Finite t n f) =
     (if m = 0 \<and> n = 0 then Finite (s \<and> t) 0 (- 1074)
      else if n = 0 then round_double s m e False
      else if m = 0 then round_double t n f False
      else (let e0 = min e f;
                i = signed s m * 2 ^ nat (e - e0) + signed t n * 2 ^ nat (f - e0)
            in if i = 0 then Finite False 0 (- 1074)
               else round_double (i < 0) (nat \<bar>i\<bar>) e0 False))"

text \<open>\<^verbatim>\<open>a - b\<close>\<close>

definition fsub :: "double \<Rightarrow> double \<Rightarrow> double" where
  "fsub a b = fadd a (fneg b)"

text \<open>\<^verbatim>\<open>a * b\<close>\<close>

fun fmul :: "double \<Rightarrow> double \<Rightarrow> double" where
  "fmul NaN _ = NaN"
| "fmul _ NaN = NaN"
| "fmul (Infinity s) (Infinity t) = Infinity (s \<noteq> t)"
| "fmul (Infinity s) (Finite t m e) = (if m = 0 then NaN else Infinity (s \<noteq> t))"
| "fmul (Finite s m e) (Infinity t) = (if m = 0 then NaN else Infinity (s \<noteq> t))"
| "fmul (Finite s m e) (Finite t n f) = round_double (s \<noteq> t) (m * n) (e + f) False"

text \<open>\<^verbatim>\<open>a / b\<close>\<close>

fun fdiv :: "double \<Rightarrow> double \<Rightarrow> double" where
  "fdiv NaN _ = NaN"
| "fdiv _ NaN = NaN"
| "fdiv (Infinity s) (Infinity t) = NaN"
| "fdiv (Infinity s) (Finite t m e) = Infinity (s \<noteq> t)"
| "fdiv (Finite s m e) (Infinity t) = Finite (s \<noteq> t) 0 (- 1074)"
| "fdiv (Finite s m e) (Finite t n f) =
     (if n = 0 then (if m = 0 then NaN else Infinity (s \<noteq> t))
      else (let j = bit_length n + 64
            in round_double (s \<noteq> t) ((m * 2 ^ j) div n) (e - f - int j)
                 ((m * 2 ^ j) mod n \<noteq> 0)))"

text \<open>The integer square root (rounded down), two bits at a time.\<close>

fun isqrt :: "nat \<Rightarrow> nat" where
  "isqrt n =
     (if n < 2 then n
      else (let r = 2 * isqrt (n div 4)
            in if (r + 1) * (r + 1) \<le> n then r + 1 else r))"

declare isqrt.simps [simp del]

text \<open>\<^verbatim>\<open>std::sqrt\<close>\<close>

fun fsqrt :: "double \<Rightarrow> double" where
  "fsqrt NaN = NaN"
| "fsqrt (Infinity s) = (if s then NaN else Infinity False)"
| "fsqrt (Finite s m e) =
     (if m = 0 then Finite s 0 (- 1074)
      else if s then NaN
      else (let j = (if even e then 128 else 129);
                a = m * 2 ^ j;
                r = isqrt a
            in round_double False r ((e - int j) div 2) (r * r \<noteq> a)))"

text \<open>The comparisons \<^verbatim>\<open>a < b\<close>, \<^verbatim>\<open>a <= b\<close>, \<^verbatim>\<open>a > b\<close>: false whenever an operand is a NaN.\<close>

fun flt :: "double \<Rightarrow> double \<Rightarrow> bool" where
  "flt NaN _ = False"
| "flt _ NaN = False"
| "flt (Infinity s) (Infinity t) = (s \<and> \<not> t)"
| "flt (Infinity s) (Finite t m e) = s"
| "flt (Finite s m e) (Infinity t) = (\<not> t)"
| "flt (Finite s m e) (Finite t n f) =
     (let e0 = min e f
      in signed s m * 2 ^ nat (e - e0) < signed t n * 2 ^ nat (f - e0))"

fun fle :: "double \<Rightarrow> double \<Rightarrow> bool" where
  "fle NaN _ = False"
| "fle _ NaN = False"
| "fle (Infinity s) (Infinity t) = (s \<or> \<not> t)"
| "fle (Infinity s) (Finite t m e) = s"
| "fle (Finite s m e) (Infinity t) = (\<not> t)"
| "fle (Finite s m e) (Finite t n f) =
     (let e0 = min e f
      in signed s m * 2 ^ nat (e - e0) \<le> signed t n * 2 ^ nat (f - e0))"

definition fgt :: "double \<Rightarrow> double \<Rightarrow> bool" where
  "fgt a b = flt b a"

text \<open>\<^verbatim>\<open>std::max(a, b)\<close> is \<^verbatim>\<open>(a < b) ? b : a\<close>.\<close>

definition fmax :: "double \<Rightarrow> double \<Rightarrow> double" where
  "fmax a b = (if flt a b then b else a)"

text \<open>\<^verbatim>\<open>std::clamp(v, lo, hi)\<close> is \<^verbatim>\<open>(v < lo) ? lo : (hi < v) ? hi : v\<close>.\<close>

definition clamp :: "double \<Rightarrow> double \<Rightarrow> double \<Rightarrow> double" where
  "clamp v lo hi = (if flt v lo then lo else if flt hi v then hi else v)"

text \<open>
  \<^verbatim>\<open>sc_Precision = std::numeric_limits<double>::epsilon()\<close> is \<open>2^-52\<close>;
  \<^verbatim>\<open>sc_ParametricL = 0.0\<close>, \<^verbatim>\<open>sc_ParametricH = 1.0\<close>.
\<close>

definition sc_Precision :: double where
  "sc_Precision = Finite False (2 ^ 52) (- 104)"

definition sc_ParametricL :: double where
  "sc_ParametricL = Finite False 0 (- 1074)"

definition sc_ParametricH :: double where
  "sc_ParametricH = Finite False (2 ^ 52) (- 52)"


section \<open>Point.h\<close>

text \<open>\<^verbatim>\<open>class Point\<close>: the three private coordinates.\<close>

record Point =
  m_X :: double
  m_Y :: double
  m_Z :: double

text \<open>\<^verbatim>\<open>Coordinate_t{}\<close> is \<open>+0.0\<close>.\<close>

definition Coordinate_zero :: double where
  "Coordinate_zero = Finite False 0 (- 1074)"

text \<open>\<^verbatim>\<open>explicit Point(p_X, p_Y, p_Z)\<close> and the default \<^verbatim>\<open>Point{}\<close>.\<close>

definition Point_ctor :: "double \<Rightarrow> double \<Rightarrow> double \<Rightarrow> Point" where
  "Point_ctor p_X p_Y p_Z = \<lparr>m_X = p_X, m_Y = p_Y, m_Z = p_Z\<rparr>"

definition Point_default :: Point where
  "Point_default = Point_ctor Coordinate_zero Coordinate_zero Coordinate_zero"

text \<open>\<^verbatim>\<open>nearlyEqual\<close>; \<open>nearlyEqual_default\<close> is the call with \<^verbatim>\<open>p_Epsilon = sc_Precision\<close>.\<close>

definition nearlyEqual :: "double \<Rightarrow> double \<Rightarrow> double \<Rightarrow> bool" where
  "nearlyEqual p_ValueA p_ValueB p_Epsilon =
     fle (fabs (fsub p_ValueA p_ValueB))
         (fmul p_Epsilon (fmax (fabs p_ValueA) (fabs p_ValueB)))"

definition nearlyEqual_default :: "double \<Rightarrow> double \<Rightarrow> bool" where
  "nearlyEqual_default p_ValueA p_ValueB = nearlyEqual p_ValueA p_ValueB sc_Precision"

text \<open>
  \<^verbatim>\<open>magnitude\<close> and \<^verbatim>\<open>normalize\<close>; the latter is \<open>normalize_Point\<close> here, \<open>normalize\<close>
  being a constant of the library.
\<close>

definition magnitude :: "Point \<Rightarrow> double" where
  "magnitude p =
     fsqrt (fadd (fadd (fmul (m_X p) (m_X p)) (fmul (m_Y p) (m_Y p))) (fmul (m_Z p) (m_Z p)))"

definition normalize_Point :: "Point \<Rightarrow> Point" where
  "normalize_Point p =
     (let l_Magnitude = magnitude p
      in if fgt l_Magnitude sc_Precision
         then Point_ctor (fdiv (m_X p) l_Magnitude) (fdiv (m_Y p) l_Magnitude)
                (fdiv (m_Z p) l_Magnitude)
         else Point_default)"

text \<open>\<^verbatim>\<open>operator==\<close> and \<^verbatim>\<open>operator!=\<close>\<close>

definition op_eq :: "Point \<Rightarrow> Point \<Rightarrow> bool" where
  "op_eq p p_Other =
     (nearlyEqual_default (m_X p) (m_X p_Other) \<and> nearlyEqual_default (m_Y p) (m_Y p_Other)
      \<and> nearlyEqual_default (m_Z p) (m_Z p_Other))"

definition op_neq :: "Point \<Rightarrow> Point \<Rightarrow> bool" where
  "op_neq p p_Other = (\<not> op_eq p p_Other)"

definition distance :: "Point \<Rightarrow> Point \<Rightarrow> double" where
  "distance p p_Other =
     (let l_dX = fsub (m_X p_Other) (m_X p);
          l_dY = fsub (m_Y p_Other) (m_Y p);
          l_dZ = fsub (m_Z p_Other) (m_Z p)
      in fsqrt (fadd (fadd (fmul l_dX l_dX) (fmul l_dY l_dY)) (fmul l_dZ l_dZ)))"

text \<open>\<^verbatim>\<open>operator+\<close>, \<^verbatim>\<open>operator-\<close>, \<^verbatim>\<open>operator*(Scalar_t)\<close>\<close>

definition op_plus :: "Point \<Rightarrow> Point \<Rightarrow> Point" where
  "op_plus p p_Other =
     Point_ctor (fadd (m_X p) (m_X p_Other)) (fadd (m_Y p) (m_Y p_Other))
       (fadd (m_Z p) (m_Z p_Other))"

definition op_minus :: "Point \<Rightarrow> Point \<Rightarrow> Point" where
  "op_minus p p_Other =
     Point_ctor (fsub (m_X p) (m_X p_Other)) (fsub (m_Y p) (m_Y p_Other))
       (fsub (m_Z p) (m_Z p_Other))"

definition op_times :: "Point \<Rightarrow> double \<Rightarrow> Point" where
  "op_times p p_Scalar =
     Point_ctor (fmul (m_X p) p_Scalar) (fmul (m_Y p) p_Scalar) (fmul (m_Z p) p_Scalar)"

definition dot :: "Point \<Rightarrow> Point \<Rightarrow> double" where
  "dot p p_Other =
     fadd (fadd (fmul (m_X p) (m_X p_Other)) (fmul (m_Y p) (m_Y p_Other)))
       (fmul (m_Z p) (m_Z p_Other))"


subsection \<open>Move construction and move assignment\<close>

text \<open>
  Both read and write two objects, and the assignment compares their addresses, so the
  objects live in a store from addresses to Points. \<^verbatim>\<open>std::exchange(obj, v)\<close> writes
  \<open>v\<close> into \<open>obj\<close> and returns the old value; the three members are moved in the order
  x, y, z.
\<close>

type_synonym addr = nat

type_synonym store = "addr \<Rightarrow> Point"

definition exchange_X :: "addr \<Rightarrow> double \<Rightarrow> store \<Rightarrow> double \<times> store" where
  "exchange_X a v \<sigma> = (m_X (\<sigma> a), \<sigma>(a := (\<sigma> a)\<lparr>m_X := v\<rparr>))"

definition exchange_Y :: "addr \<Rightarrow> double \<Rightarrow> store \<Rightarrow> double \<times> store" where
  "exchange_Y a v \<sigma> = (m_Y (\<sigma> a), \<sigma>(a := (\<sigma> a)\<lparr>m_Y := v\<rparr>))"

definition exchange_Z :: "addr \<Rightarrow> double \<Rightarrow> store \<Rightarrow> double \<times> store" where
  "exchange_Z a v \<sigma> = (m_Z (\<sigma> a), \<sigma>(a := (\<sigma> a)\<lparr>m_Z := v\<rparr>))"

text \<open>\<^verbatim>\<open>Point(Point&& p_Other)\<close>, constructing the object at address \<open>this\<close>.\<close>

definition move_ctor :: "addr \<Rightarrow> addr \<Rightarrow> store \<Rightarrow> store" where
  "move_ctor this p_Other \<sigma> =
     (let (x, \<sigma>1) = exchange_X p_Other Coordinate_zero \<sigma>;
          \<sigma>2 = \<sigma>1(this := (\<sigma>1 this)\<lparr>m_X := x\<rparr>);
          (y, \<sigma>3) = exchange_Y p_Other Coordinate_zero \<sigma>2;
          \<sigma>4 = \<sigma>3(this := (\<sigma>3 this)\<lparr>m_Y := y\<rparr>);
          (z, \<sigma>5) = exchange_Z p_Other Coordinate_zero \<sigma>4
      in \<sigma>5(this := (\<sigma>5 this)\<lparr>m_Z := z\<rparr>))"

text \<open>\<^verbatim>\<open>Point& operator=(Point&& p_Other)\<close>\<close>

definition move_assign :: "addr \<Rightarrow> addr \<Rightarrow> store \<Rightarrow> store" where
  "move_assign this p_Other \<sigma> =
     (if this \<noteq> p_Other
      then (let (x, \<sigma>1) = exchange_X p_Other Coordinate_zero \<sigma>;
                \<sigma>2 = \<sigma>1(this := (\<sigma>1 this)\<lparr>m_X := x\<rparr>);
                (y, \<sigma>3) = exchange_Y p_Other Coordinate_zero \<sigma>2;
                \<sigma>4 = \<sigma>3(this := (\<sigma>3 this)\<lparr>m_Y := y\<rparr>);
                (z, \<sigma>5) = exchange_Z p_Other Coordinate_zero \<sigma>4
            in \<sigma>5(this := (\<sigma>5 this)\<lparr>m_Z := z\<rparr>))
      else \<sigma>)"

subsection \<open>Stream extraction\<close>

text \<open>
  \<^verbatim>\<open>operator>>(InputStream_t&, Point&)\<close>. The stream is the standard library's: the model
  takes its two operations as parameters, \<open>extract s v\<close> for \<^verbatim>\<open>s >> v\<close> on a double
  holding \<open>v\<close>, and \<open>good s\<close> for the conversion of the stream to \<^verbatim>\<open>bool\<close>. An extraction
  either returns, with the new stream and the new content of the double, or throws
  (\<^verbatim>\<open>std::ios_base::failure\<close>, when the exception mask of the stream holds a state bit
  that the extraction sets), leaving the stream and the double as they are at that moment.

  The operator has no handler. An exception thrown by one of the three extractions
  leaves the operator before the condition is evaluated and before any assignment: the
  later extractions are not run and \<open>p_Point\<close>, passed by reference, is as it was.
\<close>

datatype 'a outcome = Returns 'a | Throws 'a

definition op_extract ::
  "('s \<Rightarrow> double \<Rightarrow> ('s \<times> double) outcome) \<Rightarrow> ('s \<Rightarrow> bool) \<Rightarrow> 's \<Rightarrow> Point
     \<Rightarrow> ('s \<times> Point) outcome" where
  "op_extract extract good p_Stream p_Point =
     (let x = Coordinate_zero;
          y = Coordinate_zero;
          z = Coordinate_zero
      in case extract p_Stream x of
           Throws (s1, x) \<Rightarrow> Throws (s1, p_Point)
         | Returns (s1, x) \<Rightarrow>
             (case extract s1 y of
                Throws (s2, y) \<Rightarrow> Throws (s2, p_Point)
              | Returns (s2, y) \<Rightarrow>
                  (case extract s2 z of
                     Throws (s3, z) \<Rightarrow> Throws (s3, p_Point)
                   | Returns (s3, z) \<Rightarrow>
                       if good s3
                       then Returns (s3, p_Point\<lparr>m_X := x, m_Y := y, m_Z := z\<rparr>)
                       else Returns (s3, p_Point\<lparr>m_X := x, m_Y := y, m_Z := z\<rparr>))))"

text \<open>
  A standard stream (\<^verbatim>\<open>std::istream\<close>, C++11) over a sequence of whitespace-separated
  fields. A field is a number that parses to a double, a number whose value is out of the
  range of a double (\<^verbatim>\<open>1e999\<close>, with its sign), or text that does not start a number. The
  stream carries the state bits \<^verbatim>\<open>eofbit\<close> and \<^verbatim>\<open>failbit\<close> and its exception mask
  (\<^verbatim>\<open>exceptions()\<close>, empty by default); \<open>unterminated\<close> says that the last field is followed
  by the end of the input directly, with no white space after it. There is no device
  error, so \<^verbatim>\<open>badbit\<close> is never set.

  \<^verbatim>\<open>setstate\<close> adds bits to the state and throws when the exception mask holds a bit
  of the new state. An extraction (\<^verbatim>\<open>operator>>(double&)\<close>):

    \<^item> on a stream that is not good, sets \<^verbatim>\<open>failbit\<close> and leaves the double alone;
    \<^item> at the end of the input, sets \<^verbatim>\<open>eofbit\<close> and \<^verbatim>\<open>failbit\<close> and leaves the double alone;
    \<^item> on a number that parses, consumes it and stores its value; reading up to the end
      of the input sets \<^verbatim>\<open>eofbit\<close>;
    \<^item> on a number out of range, consumes it, stores the largest finite double with the
      sign of the number (\<^verbatim>\<open>numeric_limits<double>::max()\<close> or \<^verbatim>\<open>lowest()\<close>) and sets
      \<^verbatim>\<open>failbit\<close>;
    \<^item> on text that does not start a number, consumes nothing, stores zero and sets
      \<^verbatim>\<open>failbit\<close>.

  The conversion to \<^verbatim>\<open>bool\<close> is \<^verbatim>\<open>!fail()\<close>.
\<close>

datatype token = Scalar double | OutOfRange bool | Malformed

record istream =
  pending :: "token list"
  unterminated :: bool
  eofbit :: bool
  failbit :: bool
  exceptions_eofbit :: bool
  exceptions_failbit :: bool

definition numeric_limits_max :: double where
  "numeric_limits_max = Finite False (2 ^ 53 - 1) 971"

definition setstate :: "bool \<Rightarrow> bool \<Rightarrow> istream \<Rightarrow> double \<Rightarrow> (istream \<times> double) outcome" where
  "setstate eof fail s v =
     (let s' = s\<lparr>eofbit := eofbit s \<or> eof, failbit := failbit s \<or> fail\<rparr>
      in if (exceptions_eofbit s' \<and> eofbit s') \<or> (exceptions_failbit s' \<and> failbit s')
         then Throws (s', v)
         else Returns (s', v))"

definition std_extract :: "istream \<Rightarrow> double \<Rightarrow> (istream \<times> double) outcome" where
  "std_extract s v =
     (if eofbit s \<or> failbit s then setstate False True s v
      else (case pending s of
              [] \<Rightarrow> setstate True True s v
            | Scalar d # rest \<Rightarrow>
                setstate (rest = [] \<and> unterminated s) False (s\<lparr>pending := rest\<rparr>) d
            | OutOfRange negative # rest \<Rightarrow>
                setstate (rest = [] \<and> unterminated s) True (s\<lparr>pending := rest\<rparr>)
                  (if negative then fneg numeric_limits_max else numeric_limits_max)
            | Malformed # rest \<Rightarrow> setstate False True s Coordinate_zero))"

definition std_good :: "istream \<Rightarrow> bool" where
  "std_good s = (\<not> failbit s)"

section \<open>Segment.h\<close>

record Segment =
  m_Start :: Point
  m_End :: Point

definition Segment_ctor :: "Point \<Rightarrow> Point \<Rightarrow> Segment" where
  "Segment_ctor p_Start p_End = \<lparr>m_Start = p_Start, m_End = p_End\<rparr>"

definition closestDistance :: "Segment \<Rightarrow> Segment \<Rightarrow> double" where
  "closestDistance p_Segment1 p_Segment2 =
     (let l_D1 = op_minus (m_End p_Segment1) (m_Start p_Segment1);
          l_D2 = op_minus (m_End p_Segment2) (m_Start p_Segment2);
          l_R = op_minus (m_Start p_Segment1) (m_Start p_Segment2);
          l_A = dot l_D1 l_D1;
          l_E = dot l_D2 l_D2;
          l_F = dot l_D2 l_R;
          l_B = dot l_D1 l_D2;
          l_C = dot l_D1 l_R;
          l_Denominator = fsub (fmul l_A l_E) (fmul l_B l_B);
          (l_S, l_T) =
            (if fgt (fabs l_Denominator) sc_Precision
             then (fdiv (fsub (fmul l_B l_F) (fmul l_C l_E)) l_Denominator,
                   fdiv (fsub (fmul l_A l_F) (fmul l_B l_C)) l_Denominator)
             else (Coordinate_zero, fdiv l_F l_E));
          l_S = clamp l_S sc_ParametricL sc_ParametricH;
          l_T = clamp l_T sc_ParametricL sc_ParametricH;
          l_ClosestPoint1 = op_plus (m_Start p_Segment1) (op_times l_D1 l_S);
          l_ClosestPoint2 = op_plus (m_Start p_Segment2) (op_times l_D2 l_T)
      in distance l_ClosestPoint1 l_ClosestPoint2)"


section \<open>Notions used to state the properties\<close>


text \<open>
  The closest-distance computation as the specification words it, on the coordinates and
  in scalar operations only: the difference of two points and the dot product of two
  vectors by components, the clamp to the unit interval as two comparisons, the point
  \<open>start + k * d\<close> by components, and the Euclidean distance between two points as the
  square root of the sum of the squared coordinate differences.
\<close>

type_synonym vec = "double \<times> double \<times> double"

definition spec_diff :: "Point \<Rightarrow> Point \<Rightarrow> vec" where
  "spec_diff p q = (fsub (m_X p) (m_X q), fsub (m_Y p) (m_Y q), fsub (m_Z p) (m_Z q))"

definition spec_dot :: "vec \<Rightarrow> vec \<Rightarrow> double" where
  "spec_dot u v =
     (case (u, v) of
        ((ux, uy, uz), (vx, vy, vz)) \<Rightarrow> fadd (fadd (fmul ux vx) (fmul uy vy)) (fmul uz vz))"

definition clamp01 :: "double \<Rightarrow> double" where
  "clamp01 v =
     (if flt v (Finite False 0 (- 1074)) then Finite False 0 (- 1074)
      else if flt (Finite False (2 ^ 52) (- 52)) v then Finite False (2 ^ 52) (- 52)
      else v)"

definition spec_along :: "Point \<Rightarrow> vec \<Rightarrow> double \<Rightarrow> vec" where
  "spec_along start d k =
     (case d of
        (dx, dy, dz) \<Rightarrow>
          (fadd (m_X start) (fmul dx k), fadd (m_Y start) (fmul dy k),
           fadd (m_Z start) (fmul dz k)))"

definition spec_euclidean :: "vec \<Rightarrow> vec \<Rightarrow> double" where
  "spec_euclidean p q =
     (case (p, q) of
        ((px, py, pz), (qx, qy, qz)) \<Rightarrow>
          fsqrt (fadd (fadd (fmul (fsub qx px) (fsub qx px)) (fmul (fsub qy py) (fsub qy py)))
                   (fmul (fsub qz pz) (fsub qz pz))))"

text \<open>
  The fields that an extraction of three scalars leaves in the three locals, as the
  specification words it: the values that were parsed, in order, and the default (zero)
  for every field from the first one that is missing or does not parse; a number out of
  range counts as parsed to the largest finite double of its sign, and ends the reading.
\<close>

fun spec_fields :: "nat \<Rightarrow> token list \<Rightarrow> double list" where
  "spec_fields 0 ts = []"
| "spec_fields (Suc n) [] = replicate (Suc n) Coordinate_zero"
| "spec_fields (Suc n) (Scalar d # ts) = d # spec_fields n ts"
| "spec_fields (Suc n) (OutOfRange negative # ts) =
     (if negative then fneg numeric_limits_max else numeric_limits_max)
       # replicate n Coordinate_zero"
| "spec_fields (Suc n) (Malformed # ts) = replicate (Suc n) Coordinate_zero"

definition spec_Point :: "istream \<Rightarrow> Point" where
  "spec_Point s =
     (if eofbit s \<or> failbit s then Point_default
      else Point_ctor (spec_fields 3 (pending s) ! 0) (spec_fields 3 (pending s) ! 1)
             (spec_fields 3 (pending s) ! 2))"

definition thrown :: "'a outcome \<Rightarrow> bool" where
  "thrown r = (case r of Throws a \<Rightarrow> True | Returns a \<Rightarrow> False)"

definition state_after :: "'a outcome \<Rightarrow> 'a" where
  "state_after r = (case r of Throws a \<Rightarrow> a | Returns a \<Rightarrow> a)"

text \<open>Points and segments with small integer coordinates, as the tests write them.\<close>

definition pt :: "int \<Rightarrow> int \<Rightarrow> int \<Rightarrow> Point" where
  "pt x y z = Point_ctor (double_of_int x) (double_of_int y) (double_of_int z)"

definition seg :: "int \<times> int \<times> int \<Rightarrow> int \<times> int \<times> int \<Rightarrow> Segment" where
  "seg a b =
     (case (a, b) of ((x1, y1, z1), (x2, y2, z2)) \<Rightarrow> Segment_ctor (pt x1 y1 z1) (pt x2 y2 z2))"

text \<open>\<^verbatim>\<open>EXPECT_NEAR(val1, val2, abs_error)\<close> of the tests: \<^verbatim>\<open>fabs(val1 - val2) <= abs_error\<close>.\<close>

definition expect_near :: "double \<Rightarrow> double \<Rightarrow> double \<Rightarrow> bool" where
  "expect_near val1 val2 abs_error = fle (fabs (fsub val1 val2)) abs_error"

text \<open>
  The real number a finite double denotes (0 for infinities and NaN, which denote none).
\<close>

fun valof :: "double \<Rightarrow> real" where
  "valof (Finite s m e) = (if s then - 1 else 1) * real m * 2 powr real_of_int e"
| "valof (Infinity s) = 0"
| "valof NaN = 0"

text \<open>
  The unit roundoff \<open>2^-53\<close> of binary64, and half the smallest subnormal, \<open>2^-1075\<close>: a
  correctly rounded operation with exact result \<open>x\<close> returns a finite double within
  \<open>2^-53 * |x| + 2^-1075\<close> of \<open>x\<close>, or overflows to an infinity, which takes \<open>|x| \<ge> 2^1023\<close>.
\<close>

definition unit_roundoff :: real where
  "unit_roundoff = 1 / 2 ^ 53"

definition eta :: real where
  "eta = 1 / 2 ^ 1075"

definition rounds_to :: "double \<Rightarrow> real \<Rightarrow> bool" where
  "rounds_to d x = (is_finite d \<and> \<bar>valof d - x\<bar> \<le> unit_roundoff * \<bar>x\<bar> + eta)"

definition overflows :: "double \<Rightarrow> real \<Rightarrow> bool" where
  "overflows d x = ((d = Infinity False \<or> d = Infinity True) \<and> 2 ^ 1023 \<le> \<bar>x\<bar>)"

text \<open>The sum of squares whose root \<^verbatim>\<open>magnitude\<close> takes, in its order of evaluation.\<close>

definition sumsq :: "double \<Rightarrow> double \<Rightarrow> double \<Rightarrow> double" where
  "sumsq a b c = fadd (fadd (fmul a a) (fmul b b)) (fmul c c)"

text \<open>
  A magnitude is approximately 1.0 when it is finite and within four epsilon,
  \<open>2^-50\<close>, of 1.
\<close>

definition approx_one :: "double \<Rightarrow> bool" where
  "approx_one d = (is_finite d \<and> \<bar>valof d - 1\<bar> \<le> 1 / 2 ^ 50)"

section \<open>Properties of the scalar operations\<close>

lemmas fp_eval =
  round_double_def bit_length.simps isqrt.simps Let_def signed_def fsub_def fgt_def fmax_def
  clamp_def sc_Precision_def sc_ParametricL_def sc_ParametricH_def Coordinate_zero_def
  double_of_int_def

lemmas geometry_eval =
  closestDistance_def Segment_ctor_def Point_ctor_def Point_default_def op_minus_def
  op_plus_def op_times_def dot_def distance_def magnitude_def normalize_Point_def pt_def seg_def

lemma if_shape:
  "(if A then Finite s 0 c else if B then Infinity s else Finite s Q E) = Infinity s
   \<or> (\<exists>q e'. (if A then Finite s 0 c else if B then Infinity s else Finite s Q E) = Finite s q e')"
  by auto

lemma round_double_shape:
  "round_double s m e st = Infinity s \<or> (\<exists>q e'. round_double s m e st = Finite s q e')"
  unfolding round_double_def Let_def by (rule if_shape)









lemma fle_zero_round_double: "fle (Finite False 0 z) (round_double False m e st)"
  using round_double_shape [of False m e st] by (auto simp: signed_def Let_def)

lemma fmax_same: "fmax a a = a"
  by (simp add: fmax_def)

lemma fsub_self: "fsub (Finite s m e) (Finite s m e) = Finite False 0 (- 1074)"
  unfolding fsub_def by (simp add: Let_def signed_def)

lemma nearlyEqual_default_refl: "nearlyEqual_default a a = is_finite a"
proof (cases a)
  case (Finite s m e)
  show ?thesis
    unfolding nearlyEqual_default_def nearlyEqual_def fmax_same Finite fsub_self
    by (simp add: sc_Precision_def fle_zero_round_double)
qed (simp_all add: nearlyEqual_default_def nearlyEqual_def fsub_def)

lemma not_flt_iff_fle: "\<not> is_nan a \<Longrightarrow> \<not> is_nan b \<Longrightarrow> (\<not> flt a b) = fle b a"
  by (cases a; cases b) (auto simp: Let_def min.commute not_less)

lemma clamp01_range:
  assumes "\<not> is_nan v"
  shows "fle (Finite False 0 (- 1074)) (clamp01 v) \<and> fle (clamp01 v) (Finite False (2 ^ 52) (- 52))"
proof -
  let ?z = "Finite False 0 (- 1074)" and ?o = "Finite False (2 ^ 52) (- 52)"
  have c: "fle ?z ?z" "fle ?z ?o" "fle ?o ?o"
    by (simp_all add: Let_def signed_def)
  have 1: "(\<not> flt v ?z) = fle ?z v" using assms by (simp add: not_flt_iff_fle)
  have 2: "(\<not> flt ?o v) = fle v ?o" using assms by (simp add: not_flt_iff_fle)
  show ?thesis
    unfolding clamp01_def using c 1 2 by (cases "flt v ?z"; cases "flt ?o v") simp_all
qed

text \<open>With an empty exception mask \<^verbatim>\<open>setstate\<close> returns.\<close>

lemma setstate_quiet:
  "\<not> exceptions_eofbit s \<Longrightarrow> \<not> exceptions_failbit s \<Longrightarrow>
   setstate eof fail s v
     = Returns (s\<lparr>eofbit := eofbit s \<or> eof, failbit := failbit s \<or> fail\<rparr>, v)"
  by (simp add: setstate_def Let_def)

section \<open>Rounding: the value of each operation\<close>

text \<open>The bit length brackets a positive number between two powers of two.\<close>

lemma bit_length_upper: "m < 2 ^ bit_length m"
proof (induction m rule: bit_length.induct)
  case (1 n)
  show ?case
  proof (cases "n = 0")
    case True
    then show ?thesis by (simp add: bit_length.simps)
  next
    case False
    with 1 have "n div 2 < 2 ^ bit_length (n div 2)" by simp
    then have "n < 2 * 2 ^ bit_length (n div 2)" by linarith
    with False show ?thesis by (subst bit_length.simps) simp
  qed
qed

lemma bit_length_lower: "0 < m \<Longrightarrow> 2 ^ (bit_length m - 1) \<le> m"
proof (induction m rule: bit_length.induct)
  case (1 n)
  then have nz: "n \<noteq> 0" by simp
  show ?case
  proof (cases "n div 2 = 0")
    case True
    then have "bit_length n = 1" using nz
      by (subst bit_length.simps) (simp add: bit_length.simps)
    with 1 show ?thesis by simp
  next
    case False
    with 1 nz have ih: "2 ^ (bit_length (n div 2) - 1) \<le> n div 2" by simp
    have pos: "0 < bit_length (n div 2)" using False by (subst bit_length.simps) simp
    have "bit_length n = Suc (bit_length (n div 2))" using nz by (subst bit_length.simps) simp
    then have "(2::nat) ^ (bit_length n - 1) = 2 * 2 ^ (bit_length (n div 2) - 1)"
      using pos by (cases "bit_length (n div 2)") simp_all
    also have "\<dots> \<le> 2 * (n div 2)" using ih by simp
    also have "\<dots> \<le> n" by simp
    finally show ?thesis .
  qed
qed

text \<open>
  Dropping the \<open>k\<close> low bits of \<open>m + \<theta>\<close> to the nearest, ties to even, moves it by at most half
  of \<open>2^k\<close>; \<open>\<theta>\<close> is the part of the exact value below the integer \<open>m\<close>, which the sticky
  flag reports.
\<close>

lemma round_step:
  fixes m k :: nat and \<theta> :: real
  assumes k: "1 \<le> k" and t0: "0 \<le> \<theta>" and t1: "\<theta> < 1"
  defines "d \<equiv> m div 2 ^ k" and "r \<equiv> m mod 2 ^ k" and "half \<equiv> (2::nat) ^ (k - 1)"
  defines "q \<equiv> (if half < r \<or> (r = half \<and> (0 < \<theta> \<or> odd d)) then d + 1 else d)"
  shows "\<bar>real q * 2 ^ k - (real m + \<theta>)\<bar> \<le> 2 ^ (k - 1)"
proof -
  have two: "(2::nat) ^ k = 2 * half" using k unfolding half_def by (cases k) simp_all
  have m: "m = d * 2 ^ k + r" unfolding d_def r_def by (rule div_mult_mod_eq [symmetric])
  have rlt: "r < 2 * half" unfolding r_def two [symmetric] by simp
  have "real m = real (d * (2 * half) + r)" using m two by simp
  then have rm: "real m = real d * (2 * real half) + real r" by simp
  have "real (2 ^ k) = real (2 * half)" using two by simp
  then have pk: "(2::real) ^ k = 2 * real half" by simp
  have ph: "(2::real) ^ (k - 1) = real half" unfolding half_def by simp
  show ?thesis
  proof (cases "half < r \<or> (r = half \<and> (0 < \<theta> \<or> odd d))")
    case True
    then have q: "real q = real d + 1" unfolding q_def by simp
    from True have "half \<le> r" by auto
    then have a: "real half \<le> real r" by simp
    from rlt have "r + 1 \<le> 2 * half" by simp
    then have "real (r + 1) \<le> real (2 * half)" by (rule of_nat_mono)
    then have b: "real r + 1 \<le> 2 * real half" by simp
    have "real q * 2 ^ k - (real m + \<theta>) = 2 * real half - real r - \<theta>"
      unfolding q pk rm by (simp add: algebra_simps)
    then show ?thesis unfolding ph using a b t0 t1 by linarith
  next
    case False
    then have q: "real q = real d" unfolding q_def by simp
    have e: "real q * 2 ^ k - (real m + \<theta>) = - (real r + \<theta>)"
      unfolding q pk rm by (simp add: algebra_simps)
    show ?thesis
    proof (cases "r = half")
      case True
      with False have "\<theta> = 0" using t0 by auto
      then show ?thesis unfolding e ph using True by simp
    next
      case False2: False
      with False have "r + 1 \<le> half" by auto
      then have "real (r + 1) \<le> real half" by (rule of_nat_mono)
      then have "real r + 1 \<le> real half" by simp
      then show ?thesis unfolding e ph using t0 t1 by linarith
    qed
  qed
qed


lemma pw_shift:
  assumes "a \<le> b"
  shows "(2::real) ^ nat (b - a) * 2 powr real_of_int a = 2 powr real_of_int b"
proof -
  have "(2::real) ^ nat (b - a) = 2 powr real (nat (b - a))" by (simp add: powr_realpow)
  also have "real (nat (b - a)) = real_of_int b - real_of_int a" using assms by simp
  finally show ?thesis by (simp add: powr_diff)
qed

text \<open>
  \<open>round_double\<close> rounds correctly: the result is the finite double of the given sign within
  half a unit in the last place of the exact magnitude \<open>x\<close>, or the infinity when \<open>x\<close> is
  beyond the range.
\<close>

lemma round_double_error:
  fixes x :: real
  assumes lo: "real m * 2 powr real_of_int e \<le> x"
    and hi: "x < (real m + 1) * 2 powr real_of_int e"
    and st: "st = (x \<noteq> real m * 2 powr real_of_int e)"
    and big: "st \<Longrightarrow> 2 ^ 53 \<le> m"
  shows "(\<exists>q e'. round_double s m e st = Finite s q e'
            \<and> \<bar>real q * 2 powr real_of_int e' - x\<bar> \<le> 2 powr (- 53) * x + 2 powr (- 1075))
       \<or> (round_double s m e st = Infinity s \<and> 2 powr 1023 \<le> x)"
proof -
  define P where "P = (2::real) powr real_of_int e"
  have Ppos: "0 < P" unfolding P_def by simp
  define \<theta> where "\<theta> = x / P - real m"
  have x: "x = (real m + \<theta>) * P" unfolding \<theta>_def using Ppos by (simp add: field_simps)
  have t0: "0 \<le> \<theta>" using lo Ppos unfolding \<theta>_def P_def [symmetric] by (simp add: field_simps)
  have t1: "\<theta> < 1" using hi Ppos unfolding \<theta>_def P_def [symmetric] by (simp add: field_simps)
  have st\<theta>: "st = (0 < \<theta>)"
    unfolding st P_def [symmetric] x using Ppos t0 by (auto simp: algebra_simps)
  have x0: "0 \<le> x" unfolding x using t0 Ppos by simp
  define B where "B = 2 powr (- 53) * x + 2 powr (- 1075)"
  have B0: "0 \<le> B" unfolding B_def using x0 by simp
  define L where "L = bit_length m"
  define e1 where "e1 = max (e + int L - 53) (- 1074)"
  define q where "q = (if e1 \<le> e then m * 2 ^ nat (e - e1)
               else (let k = nat (e1 - e);
                         d = m div 2 ^ k;
                         r = m mod 2 ^ k;
                         half = 2 ^ (k - 1)
                     in if half < r \<or> (r = half \<and> (st \<or> odd d)) then d + 1 else d))"
  define q2 where "q2 = (if q = 2 ^ 53 then 2 ^ 52 else q)"
  define e2 where "e2 = (if q = 2 ^ 53 then e1 + 1 else e1)"
  have rd: "round_double s m e st =
      (if q2 = 0 then Finite s 0 (- 1074) else if 971 < e2 then Infinity s else Finite s q2 e2)"
    unfolding round_double_def q2_def e2_def q_def e1_def L_def Let_def ..
  have mL: "m < 2 ^ L" unfolding L_def by (rule bit_length_upper)
  have X: "2 powr real_of_int (e1 + 52) \<le> x" if m0: "0 < m" and eq: "e1 = e + int L - 53"
  proof -
    have "(2::nat) ^ (L - 1) \<le> m" unfolding L_def using m0 by (rule bit_length_lower)
    then have "real ((2::nat) ^ (L - 1)) \<le> real m" by (rule of_nat_mono)
    then have a: "(2::real) ^ (L - 1) \<le> real m" by simp
    have L1: "1 \<le> L" using mL m0 by (cases L) simp_all
    have "nat (e1 + 52 - e) = L - 1" using eq L1 by simp
    moreover have "e \<le> e1 + 52" using eq L1 by simp
    ultimately have "(2::real) ^ (L - 1) * P = 2 powr real_of_int (e1 + 52)"
      unfolding P_def using pw_shift [of e "e1 + 52"] by simp
    moreover have "(2::real) ^ (L - 1) * P \<le> real m * P" using a Ppos by simp
    moreover have "real m * P \<le> x" using lo unfolding P_def .
    ultimately show ?thesis by linarith
  qed
  have V: "real q2 * 2 powr real_of_int e2 = real q * 2 powr real_of_int e1"
    unfolding q2_def e2_def by (simp add: powr_add)
  have nst: "\<not> st" if "e1 \<le> e"
  proof
    assume st
    then have "2 ^ 53 \<le> m" by (rule big)
    with mL have lt: "(2::nat) ^ 53 < 2 ^ L" by linarith
    have "53 < L" by (rule power_less_imp_less_exp [OF _ lt]) simp
    then show False using that unfolding e1_def by simp
  qed
  have E: "\<bar>real q * 2 powr real_of_int e1 - x\<bar> \<le> B"
  proof (cases "e1 \<le> e")
    case True
    then have "\<theta> = 0" using nst st\<theta> t0 by auto
    then have xm: "x = real m * P" using x by simp
    have "real q * 2 powr real_of_int e1 = real m * (2 ^ nat (e - e1) * 2 powr real_of_int e1)"
      unfolding q_def using True by simp
    also have "\<dots> = real m * P" unfolding P_def using pw_shift [OF True] by simp
    finally show ?thesis using xm B0 by simp
  next
    case False
    define k where "k = nat (e1 - e)"
    have k1: "1 \<le> k" unfolding k_def using False by simp
    have qk: "q = (if 2 ^ (k - 1) < m mod 2 ^ k \<or> (m mod 2 ^ k = 2 ^ (k - 1) \<and> (0 < \<theta> \<or> odd (m div 2 ^ k)))
                   then m div 2 ^ k + 1 else m div 2 ^ k)"
      unfolding q_def k_def st\<theta> Let_def using False by simp
    have "\<bar>real q * 2 ^ k - (real m + \<theta>)\<bar> \<le> 2 ^ (k - 1)"
      unfolding qk using round_step [OF k1 t0 t1, of m] by simp
    then have "\<bar>real q * 2 ^ k - (real m + \<theta>)\<bar> * P \<le> 2 ^ (k - 1) * P"
      using Ppos by simp
    then have "\<bar>(real q * 2 ^ k - (real m + \<theta>)) * P\<bar> \<le> 2 ^ (k - 1) * P"
      using Ppos by (simp add: abs_mult)
    then have 1: "\<bar>real q * (2 ^ k * P) - x\<bar> \<le> 2 ^ (k - 1) * P"
      unfolding x by (simp add: algebra_simps)
    have le: "e \<le> e1" using False by simp
    have 2: "(2::real) ^ k * P = 2 powr real_of_int e1"
      unfolding P_def k_def by (rule pw_shift [OF le])
    have "nat (e1 - 1 - e) = k - 1" unfolding k_def by simp
    moreover have "e \<le> e1 - 1" using False by simp
    ultimately have 3: "(2::real) ^ (k - 1) * P = 2 powr real_of_int (e1 - 1)"
      unfolding P_def using pw_shift [of e "e1 - 1"] by simp
    have 4: "2 powr real_of_int (e1 - 1) \<le> B"
    proof (cases "e1 = - 1074")
      case True
      then show ?thesis unfolding B_def using x0 by simp
    next
      case ne: False
      then have eq: "e1 = e + int L - 53" unfolding e1_def by simp
      with False have "53 < L" by simp
      then have "0 < m" using bit_length.simps [of m] unfolding L_def by (cases "m = 0") simp_all
      then have "2 powr real_of_int (e1 + 52) \<le> x" using eq by (rule X)
      then have a: "2 powr (- 53) * 2 powr real_of_int (e1 + 52) \<le> 2 powr (- 53) * x"
        by (intro mult_left_mono) simp_all
      have b: "2 powr (- 53) * 2 powr real_of_int (e1 + 52) = 2 powr real_of_int (e1 - 1)"
        by (simp add: powr_add [symmetric])
      have c: "0 \<le> 2 powr (- 1075::real)" by simp
      show ?thesis unfolding B_def using a b c by linarith
    qed
    show ?thesis using 1 4 unfolding 2 3 by linarith
  qed
  have mpos: "0 < m" if "q \<noteq> 0"
  proof (rule ccontr)
    assume "\<not> 0 < m"
    then have "m = 0" by simp
    then have "q = 0" unfolding q_def Let_def by simp
    with that show False by simp
  qed
  show ?thesis
  proof (cases "q2 = 0")
    case True
    then have "q = 0" unfolding q2_def by (simp split: if_splits)
    with E have "\<bar>real (0::nat) * 2 powr real_of_int (- 1074) - x\<bar> \<le> B" by simp
    with True show ?thesis unfolding rd B_def by auto
  next
    case False
    then have qn: "q \<noteq> 0" unfolding q2_def by (simp split: if_splits)
    show ?thesis
    proof (cases "971 < e2")
      case True
      then have ge: "971 \<le> e1" unfolding e2_def by (simp split: if_splits)
      then have "e1 = e + int L - 53" unfolding e1_def by simp
      with mpos [OF qn] have "2 powr real_of_int (e1 + 52) \<le> x" by (rule X)
      moreover have "2 powr (1023::real) \<le> 2 powr real_of_int (e1 + 52)"
        using ge by (intro powr_mono) simp_all
      ultimately have "2 powr 1023 \<le> x" by linarith
      with True False show ?thesis unfolding rd by simp
    next
      case nov: False
      have "\<bar>real q2 * 2 powr real_of_int e2 - x\<bar> \<le> B" using E unfolding V .
      with False nov show ?thesis unfolding rd B_def by auto
    qed
  qed
qed


text \<open>\<open>isqrt\<close> is the integer square root.\<close>

lemma isqrt_bounds: "isqrt n * isqrt n \<le> n \<and> n < (isqrt n + 1) * (isqrt n + 1)"
proof (induction n rule: isqrt.induct)
  case (1 n)
  show ?case
  proof (cases "n < 2")
    case True
    then have "isqrt n = n" by (subst isqrt.simps) simp
    moreover from True have "n = 0 \<or> n = 1" by auto
    ultimately show ?thesis by auto
  next
    case False
    define s where "s = isqrt (n div 4)"
    from 1 False have ih: "s * s \<le> n div 4" "n div 4 < (s + 1) * (s + 1)"
      unfolding s_def by simp_all
    have d: "4 * (n div 4) \<le> n" "n < 4 * (n div 4) + 4" by simp_all
    have lo: "(2 * s) * (2 * s) \<le> n" using ih(1) d(1) by (simp add: algebra_simps)
    have hi: "n < (2 * s + 2) * (2 * s + 2)" using ih(2) d(2) by (simp add: algebra_simps)
    have eq: "isqrt n = (if (2 * s + 1) * (2 * s + 1) \<le> n then 2 * s + 1 else 2 * s)"
      using False unfolding s_def by (subst isqrt.simps) (simp add: Let_def)
    show ?thesis
    proof (cases "(2 * s + 1) * (2 * s + 1) \<le> n")
      case True
      then show ?thesis unfolding eq using hi by (simp add: algebra_simps)
    next
      case False
      then show ?thesis unfolding eq using lo by (simp add: algebra_simps)
    qed
  qed
qed

lemma round_double_signed:
  fixes x :: real
  assumes "real m * 2 powr real_of_int e \<le> x"
    and "x < (real m + 1) * 2 powr real_of_int e"
    and "st = (x \<noteq> real m * 2 powr real_of_int e)"
    and "st \<Longrightarrow> 2 ^ 53 \<le> m"
  shows "rounds_to (round_double s m e st) ((if s then - 1 else 1) * x)
       \<or> overflows (round_double s m e st) ((if s then - 1 else 1) * x)"
proof -
  have "0 \<le> real m * 2 powr real_of_int e" by simp
  with assms(1) have x0: "0 \<le> x" by linarith
  have u: "2 powr (- 53) = unit_roundoff" "2 powr (- 1075) = eta" "(2::real) powr 1023 = 2 ^ 1023"
    unfolding unit_roundoff_def eta_def by (simp_all add: powr_neg_numeral)
  from round_double_error [OF assms, of s] show ?thesis
  proof
    assume "\<exists>q e'. round_double s m e st = Finite s q e'
        \<and> \<bar>real q * 2 powr real_of_int e' - x\<bar> \<le> 2 powr (- 53) * x + 2 powr (- 1075)"
    then obtain q e' where r: "round_double s m e st = Finite s q e'"
      and b: "\<bar>real q * 2 powr real_of_int e' - x\<bar> \<le> unit_roundoff * x + eta"
      unfolding u by blast
    have "rounds_to (round_double s m e st) ((if s then - 1 else 1) * x)"
      unfolding rounds_to_def r using b x0 by (cases s) (simp_all add: abs_mult)
    then show ?thesis ..
  next
    assume "round_double s m e st = Infinity s \<and> 2 powr 1023 \<le> x"
    then have "overflows (round_double s m e st) ((if s then - 1 else 1) * x)"
      unfolding overflows_def u using x0 by (cases s) (simp_all add: abs_mult)
    then show ?thesis ..
  qed
qed

text \<open>
  Multiplication, addition, division and square root of finite doubles return the
  correctly rounded exact result, and the comparison is the order of the values.
\<close>

lemma valof_signed: "valof (Finite s m e) = of_int (signed s m) * 2 powr real_of_int e"
  by (simp add: signed_def)

lemma fmul_value:
  assumes "is_finite a" "is_finite b"
  shows "rounds_to (fmul a b) (valof a * valof b) \<or> overflows (fmul a b) (valof a * valof b)"
proof -
  from assms obtain s m e t n f where a: "a = Finite s m e" and b: "b = Finite t n f"
    by (cases a; cases b) auto
  define x where "x = real (m * n) * 2 powr real_of_int (e + f)"
  have v: "valof a * valof b = (if s \<noteq> t then - 1 else 1) * x"
    unfolding a b x_def by (simp add: powr_add)
  have "rounds_to (round_double (s \<noteq> t) (m * n) (e + f) False) ((if s \<noteq> t then - 1 else 1) * x)
      \<or> overflows (round_double (s \<noteq> t) (m * n) (e + f) False) ((if s \<noteq> t then - 1 else 1) * x)"
    by (rule round_double_signed) (simp_all add: x_def)
  then show ?thesis unfolding v unfolding a b fmul.simps .
qed


lemma aligned_value:
  assumes "e0 \<le> e"
  shows "of_int (signed s m * 2 ^ nat (e - e0)) * 2 powr real_of_int e0 = valof (Finite s m e)"
proof -
  have "of_int (signed s m * 2 ^ nat (e - e0)) * 2 powr real_of_int e0
      = of_int (signed s m) * (2 ^ nat (e - e0) * 2 powr real_of_int e0)" by simp
  also have "\<dots> = of_int (signed s m) * 2 powr real_of_int e"
    unfolding pw_shift [OF assms] ..
  finally show ?thesis unfolding valof_signed .
qed

lemma fadd_value:
  assumes "is_finite a" "is_finite b"
  shows "rounds_to (fadd a b) (valof a + valof b) \<or> overflows (fadd a b) (valof a + valof b)"
proof -
  from assms obtain s m e t n f where a: "a = Finite s m e" and b: "b = Finite t n f"
    by (cases a; cases b) auto
  have single: "rounds_to (round_double s' m' e' False) (valof (Finite s' m' e'))
      \<or> overflows (round_double s' m' e' False) (valof (Finite s' m' e'))" for s' m' e'
  proof -
    have "rounds_to (round_double s' m' e' False) ((if s' then - 1 else 1) * (real m' * 2 powr real_of_int e'))
      \<or> overflows (round_double s' m' e' False) ((if s' then - 1 else 1) * (real m' * 2 powr real_of_int e'))"
      by (rule round_double_signed) simp_all
    then show ?thesis by (simp add: mult.assoc)
  qed
  consider (zz) "m = 0" "n = 0" | (xz) "m \<noteq> 0" "n = 0" | (zx) "m = 0" "n \<noteq> 0"
    | (xx) "m \<noteq> 0" "n \<noteq> 0" by blast
  then show ?thesis
  proof cases
    case zz
    then have "rounds_to (fadd a b) (valof a + valof b)"
      unfolding a b rounds_to_def by (simp add: eta_def)
    then show ?thesis ..
  next
    case xz
    then have "fadd a b = round_double s m e False" "valof a + valof b = valof (Finite s m e)"
      unfolding a b by simp_all
    then show ?thesis using single [of s m e] by simp
  next
    case zx
    then have "fadd a b = round_double t n f False" "valof a + valof b = valof (Finite t n f)"
      unfolding a b by simp_all
    then show ?thesis using single [of t n f] by simp
  next
    case xx
    define e0 where "e0 = min e f"
    define i where "i = signed s m * 2 ^ nat (e - e0) + signed t n * 2 ^ nat (f - e0)"
    have r: "fadd a b = (if i = 0 then Finite False 0 (- 1074)
                         else round_double (i < 0) (nat \<bar>i\<bar>) e0 False)"
      unfolding a b i_def e0_def using xx by (simp add: Let_def)
    have "of_int i * 2 powr real_of_int e0
        = of_int (signed s m * 2 ^ nat (e - e0)) * 2 powr real_of_int e0
        + of_int (signed t n * 2 ^ nat (f - e0)) * 2 powr real_of_int e0"
      unfolding i_def by (simp add: algebra_simps)
    also have "\<dots> = valof (Finite s m e) + valof (Finite t n f)"
      by (simp only: aligned_value e0_def min.cobounded1 min.cobounded2)
    finally have v: "valof a + valof b = of_int i * 2 powr real_of_int e0"
      unfolding a b by simp
    show ?thesis
    proof (cases "i = 0")
      case True
      then have "rounds_to (fadd a b) (valof a + valof b)"
        unfolding r v rounds_to_def by (simp add: eta_def)
      then show ?thesis ..
    next
      case False
      define x where "x = real (nat \<bar>i\<bar>) * 2 powr real_of_int e0"
      have sx: "of_int i * 2 powr real_of_int e0 = (if i < 0 then - 1 else 1) * x"
        unfolding x_def by simp
      have "rounds_to (round_double (i < 0) (nat \<bar>i\<bar>) e0 False) ((if i < 0 then - 1 else 1) * x)
          \<or> overflows (round_double (i < 0) (nat \<bar>i\<bar>) e0 False) ((if i < 0 then - 1 else 1) * x)"
        by (rule round_double_signed) (simp_all add: x_def)
      then show ?thesis unfolding v sx r using False by simp
    qed
  qed
qed

lemma fdiv_value:
  assumes "is_finite a" "is_finite b" "valof b \<noteq> 0"
  shows "rounds_to (fdiv a b) (valof a / valof b) \<or> overflows (fdiv a b) (valof a / valof b)"
proof -
  from assms obtain s m e t n f where a: "a = Finite s m e" and b: "b = Finite t n f"
    by (cases a; cases b) auto
  from assms(3) have n0: "n \<noteq> 0" unfolding b by auto
  define j where "j = bit_length n + 64"
  define N where "N = m * 2 ^ j"
  define Q where "Q = N div n"
  define E where "E = e - f - int j"
  define x where "x = (real N / real n) * 2 powr real_of_int E"
  have r: "fdiv a b = round_double (s \<noteq> t) Q E (N mod n \<noteq> 0)"
    unfolding a b Q_def N_def E_def j_def using n0 by (simp add: Let_def)
  have "2 powr real_of_int E = 2 powr real_of_int e / (2 powr real_of_int f * 2 ^ j)"
    unfolding E_def by (simp add: powr_diff powr_realpow)
  then have xv: "x = (real m * 2 powr real_of_int e) / (real n * 2 powr real_of_int f)"
    unfolding x_def N_def using n0 by simp
  have v: "valof a / valof b = (if s \<noteq> t then - 1 else 1) * x"
    unfolding xv a b by simp
  have N: "N = Q * n + N mod n" unfolding Q_def by simp
  have rn: "0 < real n" using n0 by simp
  have "real N = real (Q * n + N mod n)" using N by simp
  then have rN: "real N = real Q * real n + real (N mod n)" by simp
  have "N mod n < n" using n0 by simp
  then have rem: "real (N mod n) < real n" by simp
  have quot: "real N / real n = real Q + real (N mod n) / real n"
    unfolding rN using rn by (simp add: field_simps)
  have frac: "0 \<le> real (N mod n) / real n" "real (N mod n) / real n < 1"
    using rn rem by simp_all
  have P: "0 < 2 powr real_of_int E" by simp
  have lo: "real Q * 2 powr real_of_int E \<le> x"
    unfolding x_def quot using frac(1) P by (simp add: algebra_simps)
  have hi: "x < (real Q + 1) * 2 powr real_of_int E"
    unfolding x_def quot using frac(2) P by simp
  have st: "(N mod n \<noteq> 0) = (x \<noteq> real Q * 2 powr real_of_int E)"
    unfolding x_def quot using rn by simp
  have big: "2 ^ 53 \<le> Q" if "N mod n \<noteq> 0"
  proof -
    have "m \<noteq> 0" using that unfolding N_def by (cases "m = 0") simp_all
    then have "1 \<le> m" by simp
    have "n < 2 ^ bit_length n" by (rule bit_length_upper)
    then have "2 ^ 64 * n \<le> 2 ^ 64 * 2 ^ bit_length n" by simp
    also have "\<dots> = 2 ^ j" unfolding j_def by (simp add: power_add)
    also have "\<dots> \<le> N" unfolding N_def using \<open>1 \<le> m\<close> by simp
    finally have "2 ^ 64 \<le> Q" unfolding Q_def using n0
      by (simp add: less_eq_div_iff_mult_less_eq)
    moreover have "(2::nat) ^ 53 \<le> 2 ^ 64" by simp
    ultimately show ?thesis by linarith
  qed
  have "rounds_to (round_double (s \<noteq> t) Q E (N mod n \<noteq> 0)) ((if s \<noteq> t then - 1 else 1) * x)
      \<or> overflows (round_double (s \<noteq> t) Q E (N mod n \<noteq> 0)) ((if s \<noteq> t then - 1 else 1) * x)"
    using lo hi st big by (rule round_double_signed)
  then show ?thesis unfolding v r .
qed

lemma fsqrt_value:
  assumes "is_finite a" "0 \<le> valof a"
  shows "rounds_to (fsqrt a) (sqrt (valof a)) \<or> overflows (fsqrt a) (sqrt (valof a))"
proof -
  from assms obtain s m e where a: "a = Finite s m e" by (cases a) auto
  show ?thesis
  proof (cases "m = 0")
    case True
    then have "rounds_to (fsqrt a) (sqrt (valof a))"
      unfolding a rounds_to_def by (simp add: eta_def)
    then show ?thesis ..
  next
    case False
    have s: "\<not> s"
    proof
      assume s
      then have "valof a < 0" unfolding a using False by simp
      with assms(2) show False by simp
    qed
    define j :: nat where "j = (if even e then 128 else 129)"
    define A where "A = m * 2 ^ j"
    define r where "r = isqrt A"
    define E where "E = (e - int j) div 2"
    have ev: "even (e - int j)" unfolding j_def by simp
    then have E2: "e - int j = E + E" unfolding E_def by presburger
    define P where "P = (2::real) powr real_of_int E"
    have P0: "0 < P" unfolding P_def by simp
    have rd: "fsqrt a = round_double False r E (r * r \<noteq> A)"
      unfolding a r_def A_def E_def j_def using False s by (simp add: Let_def)
    have "2 powr real_of_int e = 2 ^ j * 2 powr real_of_int (e - int j)"
      using pw_shift [of "e - int j" e] by simp
    also have "2 powr real_of_int (e - int j) = P * P"
      unfolding E2 P_def by (simp only: of_int_add powr_add)
    finally have "valof a = real A * (P * P)"
      unfolding a A_def using s by simp
    then have "sqrt (valof a) = sqrt (real A) * sqrt (P * P)" by (simp add: real_sqrt_mult)
    then have x: "sqrt (valof a) = sqrt (real A) * P" using P0 by simp
    have b: "r * r \<le> A" "A < (r + 1) * (r + 1)"
      unfolding r_def using isqrt_bounds [of A] by simp_all
    from b(1) have "real (r * r) \<le> real A" by (rule of_nat_mono)
    then have "(real r)\<^sup>2 \<le> real A" by (simp add: power2_eq_square)
    then have lo1: "real r \<le> sqrt (real A)" by (rule real_le_rsqrt)
    from b(2) have "real A < real ((r + 1) * (r + 1))" by (simp only: of_nat_less_iff)
    also have "real ((r + 1) * (r + 1)) = (real r + 1)\<^sup>2"
      by (simp add: power2_eq_square algebra_simps)
    finally have "real A < (real r + 1)\<^sup>2" .
    then have hi1: "sqrt (real A) < real r + 1" by (intro real_less_lsqrt) simp_all
    have lo: "real r * 2 powr real_of_int E \<le> sqrt (valof a)"
      unfolding x P_def [symmetric] using lo1 P0 by simp
    have hi: "sqrt (valof a) < (real r + 1) * 2 powr real_of_int E"
      unfolding x P_def [symmetric] using hi1 P0 by simp
    have "(sqrt (real A) = real r) = (real A = (real r)\<^sup>2)"
      by (metis abs_of_nat of_nat_0_le_iff real_sqrt_abs real_sqrt_pow2)
    also have "\<dots> = (real A = real (r * r))" by (simp add: power2_eq_square)
    also have "\<dots> = (A = r * r)" by (simp only: of_nat_eq_iff)
    finally have "(sqrt (real A) \<noteq> real r) = (r * r \<noteq> A)" by auto
    then have st: "(r * r \<noteq> A) = (sqrt (valof a) \<noteq> real r * 2 powr real_of_int E)"
      unfolding x P_def [symmetric] using P0 by simp
    have big: "2 ^ 53 \<le> r" if "r * r \<noteq> A"
    proof (rule ccontr)
      assume "\<not> 2 ^ 53 \<le> r"
      then have h: "r + 1 \<le> 2 ^ 53" by simp
      have "(r + 1) * (r + 1) \<le> 2 ^ 53 * 2 ^ 53" by (rule mult_le_mono [OF h h])
      also have "\<dots> \<le> (2::nat) ^ j" unfolding j_def by simp
      also have "\<dots> \<le> A" unfolding A_def using False by simp
      finally show False using b(2) by simp
    qed
    have "rounds_to (round_double False r E (r * r \<noteq> A)) ((if False then - 1 else 1) * sqrt (valof a))
        \<or> overflows (round_double False r E (r * r \<noteq> A)) ((if False then - 1 else 1) * sqrt (valof a))"
      using lo hi st big by (rule round_double_signed)
    then show ?thesis unfolding rd by simp
  qed
qed

lemma flt_valof:
  "flt (Finite s m e) (Finite t n f) = (valof (Finite s m e) < valof (Finite t n f))"
proof -
  define e0 where "e0 = min e f"
  have P: "0 < 2 powr real_of_int e0" by simp
  have "flt (Finite s m e) (Finite t n f)
      = (signed s m * 2 ^ nat (e - e0) < signed t n * 2 ^ nat (f - e0))"
    unfolding e0_def by (simp add: Let_def)
  also have "\<dots> = (real_of_int (signed s m * 2 ^ nat (e - e0)) < real_of_int (signed t n * 2 ^ nat (f - e0)))"
    by (simp only: of_int_less_iff)
  also have "\<dots> = (real_of_int (signed s m * 2 ^ nat (e - e0)) * 2 powr real_of_int e0
                    < real_of_int (signed t n * 2 ^ nat (f - e0)) * 2 powr real_of_int e0)"
    using P by (simp only: mult_less_cancel_right_pos)
  also have "\<dots> = (valof (Finite s m e) < valof (Finite t n f))"
    by (simp only: aligned_value e0_def min.cobounded1 min.cobounded2)
  finally show ?thesis .
qed





subsection \<open>The error of \<^verbatim>\<open>normalize\<close> followed by \<^verbatim>\<open>magnitude\<close>, over the reals\<close>

text \<open>
  \<open>N2\<close> is the exact sum of squares of the coordinates, \<open>S0\<close> the computed one and \<open>M\<close> the
  computed magnitude: \<open>N2 / M^2\<close> is within \<open>11/2\<close> unit roundoffs of 1. The computed
  quotients \<open>w\<close> of the coordinates by \<open>M\<close> then have a sum of squares within 8 unit roundoffs
  of 1, and the computed root of their computed sum of squares is within 8 unit roundoffs,
  four epsilon, of 1.
\<close>

lemma eta_tiny: "0 \<le> eta" "eta \<le> 1 / 2 ^ 240"
  by (simp_all add: eta_def)

lemma unit_roundoff_range: "0 < unit_roundoff" "unit_roundoff < 1 / 2 ^ 52"
  by (simp_all add: unit_roundoff_def)

lemma ratio_const_lower:
  "1 \<le> (1 + 11 / 2 * unit_roundoff)
         * ((1 - unit_roundoff - 1 / 2 ^ 120)\<^sup>2 * ((1 - unit_roundoff) ^ 3 - 1 / 2 ^ 120))"
  by (simp add: unit_roundoff_def power2_eq_square power3_eq_cube)

lemma ratio_const_upper:
  "(1 - 11 / 2 * unit_roundoff)
     * ((1 + unit_roundoff + 1 / 2 ^ 120)\<^sup>2 * ((1 + unit_roundoff) ^ 3 + 1 / 2 ^ 120)) \<le> 1"
  by (simp add: unit_roundoff_def power2_eq_square power3_eq_cube)

lemma cube_const:
  "(1 + unit_roundoff) ^ 3 \<le> 2" "1 / 2 \<le> (1 - unit_roundoff) ^ 3"
  "(1 - unit_roundoff) ^ 3 \<le> 1" "1 \<le> (1 + unit_roundoff) ^ 3"
  by (simp_all add: unit_roundoff_def power3_eq_cube)

lemma magnitude_ratio:
  fixes N2 S0 M :: real
  assumes N2: "0 \<le> N2" and S0nn: "0 \<le> S0"
    and S0lo: "N2 * (1 - unit_roundoff) ^ 3 - 6 * eta \<le> S0"
    and S0hi: "S0 \<le> N2 * (1 + unit_roundoff) ^ 3 + 6 * eta"
    and Mlo: "sqrt S0 * (1 - unit_roundoff) - eta \<le> M"
    and Mhi: "M \<le> sqrt S0 * (1 + unit_roundoff) + eta"
    and Mbig: "1 / 2 ^ 52 < M"
  shows "N2 \<le> (1 + 11 / 2 * unit_roundoff) * M\<^sup>2"
    and "(1 - 11 / 2 * unit_roundoff) * M\<^sup>2 \<le> N2"
proof -
  note e = eta_tiny and u = unit_roundoff_range
  define y where "y = sqrt S0"
  have y0: "0 \<le> y" unfolding y_def using S0nn by simp
  have y2: "y\<^sup>2 = S0" unfolding y_def using S0nn by simp
  have yu: "y * unit_roundoff \<le> y * (1 / 2 ^ 52)" using y0 u by (intro mult_left_mono) simp_all
  have ylo: "1 / 2 ^ 53 \<le> y"
    using Mhi Mbig e yu unfolding y_def [symmetric] by (simp add: algebra_simps)
  have M0: "0 \<le> M" using Mbig by simp
  have k1: "M \<le> y * (1 + unit_roundoff + 1 / 2 ^ 120)"
    using Mhi ylo e unfolding y_def [symmetric] by (simp add: algebra_simps)
  have k2: "y * (1 - unit_roundoff - 1 / 2 ^ 120) \<le> M"
    using Mlo ylo e unfolding y_def [symmetric] by (simp add: algebra_simps)
  have "M\<^sup>2 \<le> (y * (1 + unit_roundoff + 1 / 2 ^ 120))\<^sup>2"
    using k1 M0 by (intro power_mono) simp_all
  then have M2hi: "M\<^sup>2 \<le> S0 * (1 + unit_roundoff + 1 / 2 ^ 120)\<^sup>2"
    unfolding power_mult_distrib y2 .
  have "0 \<le> y * (1 - unit_roundoff - 1 / 2 ^ 120)"
    using y0 by (simp add: unit_roundoff_def)
  then have "(y * (1 - unit_roundoff - 1 / 2 ^ 120))\<^sup>2 \<le> M\<^sup>2"
    using k2 by (intro power_mono) simp_all
  then have M2lo: "S0 * (1 - unit_roundoff - 1 / 2 ^ 120)\<^sup>2 \<le> M\<^sup>2"
    unfolding power_mult_distrib y2 .
  have "(1 / 2 ^ 53)\<^sup>2 \<le> y\<^sup>2" using ylo by (intro power_mono) simp_all
  then have S0big: "1 / 2 ^ 106 \<le> S0" unfolding y2 by (simp add: power2_eq_square)
  have "N2 * (1 + unit_roundoff) ^ 3 \<le> N2 * 2" using N2 cube_const(1) by (intro mult_left_mono)
  then have N2big: "1 / 2 ^ 108 \<le> N2" using S0hi S0big e by simp
  have c1: "S0 \<le> N2 * ((1 + unit_roundoff) ^ 3 + 1 / 2 ^ 120)"
    using S0hi N2big e by (simp add: algebra_simps)
  have c2: "N2 * ((1 - unit_roundoff) ^ 3 - 1 / 2 ^ 120) \<le> S0"
    using S0lo N2big e by (simp add: algebra_simps)
  define C K A where "C = 1 + 11 / 2 * unit_roundoff"
    and "K = (1 - unit_roundoff - 1 / 2 ^ 120)\<^sup>2"
    and "A = (1 - unit_roundoff) ^ 3 - 1 / 2 ^ 120"
  have C0: "0 \<le> C" unfolding C_def using u by simp
  have K0: "0 \<le> K" unfolding K_def by simp
  have "N2 * 1 \<le> N2 * (C * (K * A))"
    using N2 ratio_const_lower unfolding C_def K_def A_def by (intro mult_left_mono)
  also have "\<dots> = C * (K * (N2 * A))" by simp
  also have "\<dots> \<le> C * (K * S0)"
    using c2 C0 K0 unfolding A_def by (intro mult_left_mono) simp_all
  also have "\<dots> = C * (S0 * K)" by simp
  also have "\<dots> \<le> C * M\<^sup>2" using M2lo C0 unfolding K_def by (intro mult_left_mono)
  finally show "N2 \<le> (1 + 11 / 2 * unit_roundoff) * M\<^sup>2" unfolding C_def by simp
  define C' K' A' where "C' = 1 - 11 / 2 * unit_roundoff"
    and "K' = (1 + unit_roundoff + 1 / 2 ^ 120)\<^sup>2"
    and "A' = (1 + unit_roundoff) ^ 3 + 1 / 2 ^ 120"
  have C'0: "0 \<le> C'" unfolding C'_def by (simp add: unit_roundoff_def)
  have K'0: "0 \<le> K'" unfolding K'_def by simp
  have "C' * M\<^sup>2 \<le> C' * (S0 * K')" using M2hi C'0 unfolding K'_def by (intro mult_left_mono)
  also have "\<dots> = C' * (K' * S0)" by simp
  also have "\<dots> \<le> C' * (K' * (N2 * A'))"
    using c1 C'0 K'0 unfolding A'_def by (intro mult_left_mono) simp_all
  also have "\<dots> = N2 * (C' * (K' * A'))" by simp
  also have "\<dots> \<le> N2 * 1"
    using N2 ratio_const_upper unfolding C'_def K'_def A'_def by (intro mult_left_mono)
  finally show "(1 - 11 / 2 * unit_roundoff) * M\<^sup>2 \<le> N2" unfolding C'_def by simp
qed


lemma sq_upper:
  fixes a w :: real
  assumes "0 \<le> a" "a \<le> 2" "\<bar>w\<bar> \<le> a * (1 + unit_roundoff) + eta"
  shows "w\<^sup>2 \<le> a\<^sup>2 * (1 + unit_roundoff)\<^sup>2 + 5 * eta"
proof -
  have "\<bar>w\<bar>\<^sup>2 \<le> (a * (1 + unit_roundoff) + eta)\<^sup>2"
    using assms(3) by (intro power_mono) simp_all
  then have "w\<^sup>2 \<le> (a * (1 + unit_roundoff) + eta)\<^sup>2" by simp
  also have "(a * (1 + unit_roundoff) + eta)\<^sup>2
      = a\<^sup>2 * (1 + unit_roundoff)\<^sup>2 + a * (2 * (1 + unit_roundoff) * eta) + eta\<^sup>2"
    by (simp add: power2_eq_square algebra_simps)
  finally have "w\<^sup>2 \<le> a\<^sup>2 * (1 + unit_roundoff)\<^sup>2 + a * (2 * (1 + unit_roundoff) * eta) + eta\<^sup>2" .
  moreover have "a * (2 * (1 + unit_roundoff) * eta) \<le> 2 * (2 * (1 + unit_roundoff) * eta)"
    using assms(2) by (intro mult_right_mono) (simp_all add: unit_roundoff_def eta_def)
  moreover have "2 * (2 * (1 + unit_roundoff) * eta) + eta\<^sup>2 \<le> 5 * eta"
    by (simp add: unit_roundoff_def eta_def power2_eq_square)
  ultimately show ?thesis by linarith
qed

lemma sq_lower:
  fixes a w :: real
  assumes "0 \<le> a" "a \<le> 2" "a * (1 - unit_roundoff) - eta \<le> \<bar>w\<bar>"
  shows "a\<^sup>2 * (1 - unit_roundoff)\<^sup>2 - 5 * eta \<le> w\<^sup>2"
proof (cases "0 \<le> a * (1 - unit_roundoff) - eta")
  case True
  then have "(a * (1 - unit_roundoff) - eta)\<^sup>2 \<le> \<bar>w\<bar>\<^sup>2"
    using assms(3) by (intro power_mono) simp_all
  then have "(a * (1 - unit_roundoff) - eta)\<^sup>2 \<le> w\<^sup>2" by simp
  moreover have "(a * (1 - unit_roundoff) - eta)\<^sup>2
      = a\<^sup>2 * (1 - unit_roundoff)\<^sup>2 - a * (2 * (1 - unit_roundoff) * eta) + eta\<^sup>2"
    by (simp add: power2_eq_square algebra_simps)
  ultimately have "a\<^sup>2 * (1 - unit_roundoff)\<^sup>2 - a * (2 * (1 - unit_roundoff) * eta) + eta\<^sup>2 \<le> w\<^sup>2"
    by simp
  moreover have "a * (2 * (1 - unit_roundoff) * eta) \<le> 2 * (2 * (1 - unit_roundoff) * eta)"
    using assms(2) by (intro mult_right_mono) (simp_all add: unit_roundoff_def eta_def)
  moreover have "2 * (2 * (1 - unit_roundoff) * eta) \<le> 5 * eta"
    by (simp add: unit_roundoff_def eta_def)
  moreover have "0 \<le> eta\<^sup>2" by simp
  ultimately show ?thesis by linarith
next
  case False
  then have "a * (1 - unit_roundoff) < eta" by simp
  then have a1: "a \<le> 1" by (simp add: unit_roundoff_def eta_def)
  have "a\<^sup>2 * (1 - unit_roundoff)\<^sup>2 = (a * (1 - unit_roundoff)) * (a * (1 - unit_roundoff))"
    by (simp add: power2_eq_square algebra_simps)
  also have "\<dots> \<le> eta * 1"
  proof (intro mult_mono)
    show "a * (1 - unit_roundoff) \<le> eta" using False by simp
    show "a * (1 - unit_roundoff) \<le> 1"
      using a1 assms(1) by (simp add: unit_roundoff_def mult_left_le)
    show "0 \<le> eta" by (simp add: eta_def)
    show "0 \<le> a * (1 - unit_roundoff)" using assms(1) by (simp add: unit_roundoff_def)
  qed
  finally have "a\<^sup>2 * (1 - unit_roundoff)\<^sup>2 \<le> eta" by simp
  moreover have "0 \<le> w\<^sup>2" by simp
  moreover have "0 \<le> eta" by (simp add: eta_def)
  ultimately show ?thesis by linarith
qed

lemma component_square:
  fixes v w :: real
  assumes v: "v\<^sup>2 \<le> 2" and w: "\<bar>w - v\<bar> \<le> unit_roundoff * \<bar>v\<bar> + eta"
  shows "w\<^sup>2 \<le> v\<^sup>2 * (1 + unit_roundoff)\<^sup>2 + 5 * eta"
    and "v\<^sup>2 * (1 - unit_roundoff)\<^sup>2 - 5 * eta \<le> w\<^sup>2"
proof -
  have "\<bar>v\<bar>\<^sup>2 \<le> 2\<^sup>2" using v by simp
  then have a2: "\<bar>v\<bar> \<le> 2" by (rule power2_le_imp_le) simp
  have 1: "\<bar>w\<bar> \<le> \<bar>v\<bar> * (1 + unit_roundoff) + eta" using w by (simp add: algebra_simps)
  have 2: "\<bar>v\<bar> * (1 - unit_roundoff) - eta \<le> \<bar>w\<bar>" using w by (simp add: algebra_simps)
  show "w\<^sup>2 \<le> v\<^sup>2 * (1 + unit_roundoff)\<^sup>2 + 5 * eta"
    using sq_upper [OF _ a2 1] by simp
  show "v\<^sup>2 * (1 - unit_roundoff)\<^sup>2 - 5 * eta \<le> w\<^sup>2"
    using sq_lower [OF _ a2 2] by simp
qed

lemma quotient_const:
  "(1 + 11 / 2 * unit_roundoff) * (1 + unit_roundoff)\<^sup>2 + 15 / 2 ^ 240 \<le> 1 + 8 * unit_roundoff"
  "1 - 8 * unit_roundoff \<le> (1 - 11 / 2 * unit_roundoff) * (1 - unit_roundoff)\<^sup>2 - 15 / 2 ^ 240"
  by (simp_all add: unit_roundoff_def power2_eq_square)

lemma root_const:
  "(1 + 8 * unit_roundoff) * (1 + unit_roundoff) ^ 3 + 6 / 2 ^ 240 \<le> (1 + 23 / 4 * unit_roundoff)\<^sup>2"
  "(1 - 6 * unit_roundoff)\<^sup>2 \<le> (1 - 8 * unit_roundoff) * (1 - unit_roundoff) ^ 3 - 6 / 2 ^ 240"
  by (simp_all add: unit_roundoff_def power2_eq_square power3_eq_cube)

lemma result_const:
  "(1 + 23 / 4 * unit_roundoff) * (1 + unit_roundoff) + 1 / 2 ^ 240 \<le> 1 + 8 * unit_roundoff"
  "1 - 8 * unit_roundoff \<le> (1 - 6 * unit_roundoff) * (1 - unit_roundoff) - 1 / 2 ^ 240"
  by (simp_all add: unit_roundoff_def)

lemma normalized_sumsq:
  fixes v1 v2 v3 w1 w2 w3 :: real
  assumes Vlo: "1 - 11 / 2 * unit_roundoff \<le> v1\<^sup>2 + v2\<^sup>2 + v3\<^sup>2"
    and Vhi: "v1\<^sup>2 + v2\<^sup>2 + v3\<^sup>2 \<le> 1 + 11 / 2 * unit_roundoff"
    and w1: "\<bar>w1 - v1\<bar> \<le> unit_roundoff * \<bar>v1\<bar> + eta"
    and w2: "\<bar>w2 - v2\<bar> \<le> unit_roundoff * \<bar>v2\<bar> + eta"
    and w3: "\<bar>w3 - v3\<bar> \<le> unit_roundoff * \<bar>v3\<bar> + eta"
  shows "1 - 8 * unit_roundoff \<le> w1\<^sup>2 + w2\<^sup>2 + w3\<^sup>2"
    and "w1\<^sup>2 + w2\<^sup>2 + w3\<^sup>2 \<le> 1 + 8 * unit_roundoff"
proof -
  note e = eta_tiny and u = unit_roundoff_range
  define V where "V = v1\<^sup>2 + v2\<^sup>2 + v3\<^sup>2"
  have V2: "V \<le> 2" using Vhi u unfolding V_def by simp
  have nn: "0 \<le> v1\<^sup>2" "0 \<le> v2\<^sup>2" "0 \<le> v3\<^sup>2" by simp_all
  have s: "v1\<^sup>2 \<le> 2" "v2\<^sup>2 \<le> 2" "v3\<^sup>2 \<le> 2" using V2 nn unfolding V_def by linarith+
  note c1 = component_square [OF s(1) w1] and c2 = component_square [OF s(2) w2]
    and c3 = component_square [OF s(3) w3]
  have hi: "w1\<^sup>2 + w2\<^sup>2 + w3\<^sup>2 \<le> V * (1 + unit_roundoff)\<^sup>2 + 15 * eta"
    using c1(1) c2(1) c3(1) unfolding V_def by (simp add: algebra_simps)
  have lo: "V * (1 - unit_roundoff)\<^sup>2 - 15 * eta \<le> w1\<^sup>2 + w2\<^sup>2 + w3\<^sup>2"
    using c1(2) c2(2) c3(2) unfolding V_def by (simp add: algebra_simps)
  have "V * (1 + unit_roundoff)\<^sup>2 \<le> (1 + 11 / 2 * unit_roundoff) * (1 + unit_roundoff)\<^sup>2"
    using Vhi unfolding V_def by (intro mult_right_mono) simp_all
  with hi quotient_const(1) e show "w1\<^sup>2 + w2\<^sup>2 + w3\<^sup>2 \<le> 1 + 8 * unit_roundoff" by simp
  have "(1 - 11 / 2 * unit_roundoff) * (1 - unit_roundoff)\<^sup>2 \<le> V * (1 - unit_roundoff)\<^sup>2"
    using Vlo unfolding V_def by (intro mult_right_mono) simp_all
  with lo quotient_const(2) e show "1 - 8 * unit_roundoff \<le> w1\<^sup>2 + w2\<^sup>2 + w3\<^sup>2" by simp
qed

lemma final_bound:
  fixes W S1 R :: real
  assumes Wlo: "1 - 8 * unit_roundoff \<le> W" and Whi: "W \<le> 1 + 8 * unit_roundoff"
    and Slo: "W * (1 - unit_roundoff) ^ 3 - 6 * eta \<le> S1"
    and Shi: "S1 \<le> W * (1 + unit_roundoff) ^ 3 + 6 * eta"
    and Rlo: "sqrt S1 * (1 - unit_roundoff) - eta \<le> R"
    and Rhi: "R \<le> sqrt S1 * (1 + unit_roundoff) + eta"
  shows "\<bar>R - 1\<bar> \<le> 8 * unit_roundoff"
proof -
  note e = eta_tiny and u = unit_roundoff_range
  have "W * (1 + unit_roundoff) ^ 3 \<le> (1 + 8 * unit_roundoff) * (1 + unit_roundoff) ^ 3"
    using Whi u by (intro mult_right_mono) simp_all
  with Shi root_const(1) e have "S1 \<le> (1 + 23 / 4 * unit_roundoff)\<^sup>2" by simp
  then have zhi: "sqrt S1 \<le> 1 + 23 / 4 * unit_roundoff"
    using u by (intro real_le_lsqrt) simp_all
  have "(1 - 8 * unit_roundoff) * (1 - unit_roundoff) ^ 3 \<le> W * (1 - unit_roundoff) ^ 3"
    using Wlo u by (intro mult_right_mono) (simp_all add: unit_roundoff_def)
  with Slo root_const(2) e have "(1 - 6 * unit_roundoff)\<^sup>2 \<le> S1" by simp
  then have zlo: "1 - 6 * unit_roundoff \<le> sqrt S1" by (rule real_le_rsqrt)
  have "sqrt S1 * (1 + unit_roundoff) \<le> (1 + 23 / 4 * unit_roundoff) * (1 + unit_roundoff)"
    using zhi u by (intro mult_right_mono) simp_all
  with Rhi result_const(1) e have hi: "R \<le> 1 + 8 * unit_roundoff" by simp
  have "(1 - 6 * unit_roundoff) * (1 - unit_roundoff) \<le> sqrt S1 * (1 - unit_roundoff)"
    using zlo u by (intro mult_right_mono) (simp_all add: unit_roundoff_def)
  with Rlo result_const(2) e have lo: "1 - 8 * unit_roundoff \<le> R" by simp
  from hi lo show ?thesis by (simp add: abs_le_iff)
qed


lemma sum3_upper:
  fixes c e q1 q2 q3 T S a1 a2 a3 :: real
  assumes c: "1 \<le> c" "2 * c\<^sup>2 + 2 * c + 1 \<le> 6" and e: "0 \<le> e" and a3: "0 \<le> a3"
    and q: "q1 \<le> a1 * c + e" "q2 \<le> a2 * c + e" "q3 \<le> a3 * c + e"
    and T: "T \<le> (q1 + q2) * c + e" and S: "S \<le> (T + q3) * c + e"
  shows "S \<le> (a1 + a2 + a3) * c ^ 3 + 6 * e"
proof -
  have c0: "0 \<le> c" using c(1) by simp
  have "q1 + q2 \<le> (a1 + a2) * c + 2 * e" using q(1,2) by (simp add: algebra_simps)
  then have "(q1 + q2) * c \<le> ((a1 + a2) * c + 2 * e) * c" using c0 by (rule mult_right_mono)
  with T have T': "T \<le> ((a1 + a2) * c + 2 * e) * c + e" by simp
  have "T + q3 \<le> ((a1 + a2) * c + 2 * e) * c + e + (a3 * c + e)" using T' q(3) by simp
  then have "(T + q3) * c \<le> (((a1 + a2) * c + 2 * e) * c + e + (a3 * c + e)) * c"
    using c0 by (rule mult_right_mono)
  with S have S': "S \<le> (((a1 + a2) * c + 2 * e) * c + e + (a3 * c + e)) * c + e" by simp
  define A B2 B3 Ee where "A = (a1 + a2) * c ^ 3" and "B2 = a3 * c\<^sup>2" and "B3 = a3 * c ^ 3"
    and "Ee = e * (2 * c\<^sup>2 + 2 * c + 1)"
  have X: "(((a1 + a2) * c + 2 * e) * c + e + (a3 * c + e)) * c + e = A + B2 + Ee"
    unfolding A_def B2_def Ee_def by (simp add: power2_eq_square power3_eq_cube algebra_simps)
  have "a3 * c\<^sup>2 * 1 \<le> a3 * c\<^sup>2 * c" using c(1) a3 by (intro mult_left_mono) simp_all
  then have B: "B2 \<le> B3" unfolding B2_def B3_def by (simp add: power2_eq_square power3_eq_cube algebra_simps)
  have E: "Ee \<le> e * 6" unfolding Ee_def using c(2) e by (rule mult_left_mono)
  have G: "(a1 + a2 + a3) * c ^ 3 + 6 * e = A + B3 + e * 6"
    unfolding A_def B3_def by (simp add: algebra_simps)
  show ?thesis unfolding G using S' B E unfolding X by linarith
qed

lemma sum3_lower:
  fixes d e q1 q2 q3 T S a1 a2 a3 :: real
  assumes d: "0 \<le> d" "d \<le> 1" and e: "0 \<le> e" and a3: "0 \<le> a3"
    and q: "a1 * d - e \<le> q1" "a2 * d - e \<le> q2" "a3 * d - e \<le> q3"
    and T: "(q1 + q2) * d - e \<le> T" and S: "(T + q3) * d - e \<le> S"
  shows "(a1 + a2 + a3) * d ^ 3 - 6 * e \<le> S"
proof -
  have "(a1 + a2) * d - 2 * e \<le> q1 + q2" using q(1,2) by (simp add: algebra_simps)
  then have "((a1 + a2) * d - 2 * e) * d \<le> (q1 + q2) * d" using d(1) by (rule mult_right_mono)
  with T have T': "((a1 + a2) * d - 2 * e) * d - e \<le> T" by simp
  have "((a1 + a2) * d - 2 * e) * d - e + (a3 * d - e) \<le> T + q3" using T' q(3) by simp
  then have "(((a1 + a2) * d - 2 * e) * d - e + (a3 * d - e)) * d \<le> (T + q3) * d"
    using d(1) by (rule mult_right_mono)
  with S have S': "(((a1 + a2) * d - 2 * e) * d - e + (a3 * d - e)) * d - e \<le> S" by simp
  define A B2 B3 Ee where "A = (a1 + a2) * d ^ 3" and "B2 = a3 * d\<^sup>2" and "B3 = a3 * d ^ 3"
    and "Ee = e * (2 * d\<^sup>2 + 2 * d + 1)"
  have X: "(((a1 + a2) * d - 2 * e) * d - e + (a3 * d - e)) * d - e = A + B2 - Ee"
    unfolding A_def B2_def Ee_def by (simp add: power2_eq_square power3_eq_cube algebra_simps)
  have d0: "0 \<le> a3 * d\<^sup>2" using a3 by simp
  have "a3 * d\<^sup>2 * d \<le> a3 * d\<^sup>2 * 1" using d(2) d0 by (intro mult_left_mono)
  then have B: "B3 \<le> B2" unfolding B2_def B3_def by (simp add: power2_eq_square power3_eq_cube algebra_simps)
  have "d\<^sup>2 \<le> 1" using d by (simp add: power_le_one)
  then have "2 * d\<^sup>2 + 2 * d + 1 \<le> 6" using d(2) by simp
  then have E: "Ee \<le> e * 6" unfolding Ee_def using e by (rule mult_left_mono)
  have G: "(a1 + a2 + a3) * d ^ 3 - 6 * e = A + B3 - e * 6"
    unfolding A_def B3_def by (simp add: algebra_simps)
  show ?thesis unfolding G using S' B E unfolding X by linarith
qed

subsection \<open>The computed sum of squares and magnitude\<close>

lemma rounds_to_bounds:
  assumes "rounds_to d x" "0 \<le> x"
  shows "x * (1 - unit_roundoff) - eta \<le> valof d" and "valof d \<le> x * (1 + unit_roundoff) + eta"
  using assms unfolding rounds_to_def by (simp_all add: algebra_simps abs_le_iff)

lemma rounds_to_finite: "rounds_to d x \<Longrightarrow> is_finite d"
  unfolding rounds_to_def by simp

lemma finite_not_overflows: "is_finite d \<Longrightarrow> \<not> overflows d x"
  unfolding overflows_def by (cases d) simp_all

lemma small_not_overflows: "\<bar>x\<bar> \<le> 16 \<Longrightarrow> \<not> overflows d x"
  unfolding overflows_def by simp

lemma fadd_finiteD: "is_finite (fadd a b) \<Longrightarrow> is_finite a \<and> is_finite b"
  by (cases a; cases b) (simp_all split: if_splits)

lemma fsqrt_finiteD: "is_finite (fsqrt a) \<Longrightarrow> is_finite a"
  by (cases a) (simp_all split: if_splits)

lemma valof_round_double_nonneg: "0 \<le> valof (round_double False m e st)"
  using round_double_shape [of False m e st] by auto

lemma valof_fmul_self_nonneg: "0 \<le> valof (fmul a a)"
  by (cases a) (simp_all add: valof_round_double_nonneg)

lemma valof_nonneg_sign:
  assumes "0 \<le> valof (Finite s m e)" "m \<noteq> 0"
  shows "\<not> s"
proof
  assume s
  have "0 < real m * 2 powr real_of_int e" using assms(2) by simp
  with \<open>s\<close> have "valof (Finite s m e) < 0" by simp
  with assms(1) show False by simp
qed

lemma valof_fadd_nonneg:
  assumes "is_finite a" "is_finite b" "0 \<le> valof a" "0 \<le> valof b"
  shows "0 \<le> valof (fadd a b)"
proof -
  from assms obtain s m e t n f where a: "a = Finite s m e" and b: "b = Finite t n f"
    by (cases a; cases b) auto
  consider (zz) "m = 0" "n = 0" | (xz) "m \<noteq> 0" "n = 0" | (zx) "m = 0" "n \<noteq> 0"
    | (xx) "m \<noteq> 0" "n \<noteq> 0" by blast
  then show ?thesis
  proof cases
    case zz
    then show ?thesis unfolding a b by simp
  next
    case xz
    have "\<not> s" by (rule valof_nonneg_sign [OF assms(3) [unfolded a] xz(1)])
    with xz show ?thesis unfolding a b by (simp add: valof_round_double_nonneg del: valof.simps)
  next
    case zx
    have "\<not> t" by (rule valof_nonneg_sign [OF assms(4) [unfolded b] zx(2)])
    with zx show ?thesis unfolding a b by (simp add: valof_round_double_nonneg del: valof.simps)
  next
    case xx
    have st: "\<not> s" "\<not> t"
      by (rule valof_nonneg_sign [OF assms(3) [unfolded a] xx(1)],
          rule valof_nonneg_sign [OF assms(4) [unfolded b] xx(2)])
    define i where "i = signed s m * 2 ^ nat (e - min e f) + signed t n * 2 ^ nat (f - min e f)"
    have "0 \<le> i" unfolding i_def signed_def using st by simp
    then have "\<not> i < 0" by simp
    then show ?thesis unfolding a b using xx
      by (simp add: Let_def i_def [symmetric] valof_round_double_nonneg)
  qed
qed

lemma sumsq_bounds:
  assumes fin: "is_finite a" "is_finite b" "is_finite c" and S: "is_finite (sumsq a b c)"
  shows "0 \<le> valof (sumsq a b c)"
    and "((valof a)\<^sup>2 + (valof b)\<^sup>2 + (valof c)\<^sup>2) * (1 - unit_roundoff) ^ 3 - 6 * eta
         \<le> valof (sumsq a b c)"
    and "valof (sumsq a b c)
         \<le> ((valof a)\<^sup>2 + (valof b)\<^sup>2 + (valof c)\<^sup>2) * (1 + unit_roundoff) ^ 3 + 6 * eta"
proof -
  define q1 q2 q3 T where "q1 = fmul a a" and "q2 = fmul b b" and "q3 = fmul c c"
    and "T = fadd q1 q2"
  have S': "sumsq a b c = fadd T q3" unfolding sumsq_def T_def q1_def q2_def q3_def ..
  from S have fT: "is_finite T" and f3: "is_finite q3"
    unfolding S' using fadd_finiteD by blast+
  from fT have f1: "is_finite q1" and f2: "is_finite q2"
    unfolding T_def using fadd_finiteD by blast+
  have r1: "rounds_to q1 (valof a * valof a)"
    using fmul_value [OF fin(1) fin(1)] finite_not_overflows [OF f1] unfolding q1_def by blast
  have r2: "rounds_to q2 (valof b * valof b)"
    using fmul_value [OF fin(2) fin(2)] finite_not_overflows [OF f2] unfolding q2_def by blast
  have r3: "rounds_to q3 (valof c * valof c)"
    using fmul_value [OF fin(3) fin(3)] finite_not_overflows [OF f3] unfolding q3_def by blast
  have n: "0 \<le> valof q1" "0 \<le> valof q2" "0 \<le> valof q3"
    unfolding q1_def q2_def q3_def by (rule valof_fmul_self_nonneg)+
  have rT: "rounds_to T (valof q1 + valof q2)"
    using fadd_value [OF f1 f2] finite_not_overflows [OF fT] unfolding T_def by blast
  have nT: "0 \<le> valof T" unfolding T_def using f1 f2 n(1,2) by (rule valof_fadd_nonneg)
  have rS: "rounds_to (fadd T q3) (valof T + valof q3)"
    using fadd_value [OF fT f3] finite_not_overflows [OF S [unfolded S']] by blast
  show "0 \<le> valof (sumsq a b c)" unfolding S' using fT f3 nT n(3) by (rule valof_fadd_nonneg)
  define a1 a2 a3 where "a1 = valof a * valof a" and "a2 = valof b * valof b"
    and "a3 = valof c * valof c"
  have a0: "0 \<le> a1" "0 \<le> a2" "0 \<le> a3" unfolding a1_def a2_def a3_def by simp_all
  note b1 = rounds_to_bounds [OF r1 [folded a1_def] a0(1)]
    and b2 = rounds_to_bounds [OF r2 [folded a2_def] a0(2)]
    and b3 = rounds_to_bounds [OF r3 [folded a3_def] a0(3)]
  have "0 \<le> valof q1 + valof q2" using n by simp
  note bT = rounds_to_bounds [OF rT this]
  have "0 \<le> valof T + valof q3" using nT n by simp
  note bS = rounds_to_bounds [OF rS this]
  have e0: "0 \<le> eta" by (simp add: eta_def)
  have N: "(valof a)\<^sup>2 + (valof b)\<^sup>2 + (valof c)\<^sup>2 = a1 + a2 + a3"
    unfolding a1_def a2_def a3_def by (simp add: power2_eq_square)
  have d: "0 \<le> 1 - unit_roundoff" "1 - unit_roundoff \<le> 1"
    by (simp_all add: unit_roundoff_def)
  have c: "1 \<le> 1 + unit_roundoff" "2 * (1 + unit_roundoff)\<^sup>2 + 2 * (1 + unit_roundoff) + 1 \<le> 6"
    by (simp_all add: unit_roundoff_def power2_eq_square)
  show "((valof a)\<^sup>2 + (valof b)\<^sup>2 + (valof c)\<^sup>2) * (1 - unit_roundoff) ^ 3 - 6 * eta
         \<le> valof (sumsq a b c)"
    unfolding N S' by (rule sum3_lower [OF d e0 a0(3) b1(1) b2(1) b3(1) bT(1) bS(1)])
  show "valof (sumsq a b c)
         \<le> ((valof a)\<^sup>2 + (valof b)\<^sup>2 + (valof c)\<^sup>2) * (1 + unit_roundoff) ^ 3 + 6 * eta"
    unfolding N S' by (rule sum3_upper [OF c e0 a0(3) b1(2) b2(2) b3(2) bT(2) bS(2)])
qed


lemma sumsq_small:
  assumes fin: "is_finite a" "is_finite b" "is_finite c"
    and small: "(valof a)\<^sup>2 + (valof b)\<^sup>2 + (valof c)\<^sup>2 \<le> 2"
  shows "is_finite (sumsq a b c)"
proof -
  define q1 q2 q3 T where "q1 = fmul a a" and "q2 = fmul b b" and "q3 = fmul c c"
    and "T = fadd q1 q2"
  have S': "sumsq a b c = fadd T q3" unfolding sumsq_def T_def q1_def q2_def q3_def ..
  define a1 a2 a3 where "a1 = valof a * valof a" and "a2 = valof b * valof b"
    and "a3 = valof c * valof c"
  have a0: "0 \<le> a1" "0 \<le> a2" "0 \<le> a3" unfolding a1_def a2_def a3_def by simp_all
  have "a1 + a2 + a3 \<le> 2" using small unfolding a1_def a2_def a3_def by (simp add: power2_eq_square)
  with a0 have a2': "a1 \<le> 2" "a2 \<le> 2" "a3 \<le> 2" by linarith+
  have u: "unit_roundoff \<le> 1 / 4" "0 \<le> unit_roundoff" by (simp_all add: unit_roundoff_def)
  have e: "eta \<le> 1 / 4" by (simp add: eta_def)
  have r1: "rounds_to q1 a1"
    using fmul_value [OF fin(1) fin(1)] small_not_overflows [of a1 q1] a0(1) a2'(1)
    unfolding q1_def a1_def by auto
  have r2: "rounds_to q2 a2"
    using fmul_value [OF fin(2) fin(2)] small_not_overflows [of a2 q2] a0(2) a2'(2)
    unfolding q2_def a2_def by auto
  have r3: "rounds_to q3 a3"
    using fmul_value [OF fin(3) fin(3)] small_not_overflows [of a3 q3] a0(3) a2'(3)
    unfolding q3_def a3_def by auto
  note f1 = rounds_to_finite [OF r1] and f2 = rounds_to_finite [OF r2]
    and f3 = rounds_to_finite [OF r3]
  have n: "0 \<le> valof q1" "0 \<le> valof q2" "0 \<le> valof q3"
    unfolding q1_def q2_def q3_def by (rule valof_fmul_self_nonneg)+
  have "a1 * unit_roundoff \<le> 2 * (1 / 4)" using a0(1) a2'(1) u by (intro mult_mono) simp_all
  with rounds_to_bounds(2) [OF r1 a0(1)] e a2'(1) have h1: "valof q1 \<le> 3" by (simp add: algebra_simps)
  have "a2 * unit_roundoff \<le> 2 * (1 / 4)" using a0(2) a2'(2) u by (intro mult_mono) simp_all
  with rounds_to_bounds(2) [OF r2 a0(2)] e a2'(2) have h2: "valof q2 \<le> 3" by (simp add: algebra_simps)
  have "a3 * unit_roundoff \<le> 2 * (1 / 4)" using a0(3) a2'(3) u by (intro mult_mono) simp_all
  with rounds_to_bounds(2) [OF r3 a0(3)] e a2'(3) have h3: "valof q3 \<le> 3" by (simp add: algebra_simps)
  have x12: "0 \<le> valof q1 + valof q2" "valof q1 + valof q2 \<le> 6" using n h1 h2 by simp_all
  have rT: "rounds_to T (valof q1 + valof q2)"
    using fadd_value [OF f1 f2] small_not_overflows [of "valof q1 + valof q2" T] x12
    unfolding T_def by auto
  note fT = rounds_to_finite [OF rT]
  have nT: "0 \<le> valof T" unfolding T_def using f1 f2 n(1,2) by (rule valof_fadd_nonneg)
  have "(valof q1 + valof q2) * unit_roundoff \<le> 6 * (1 / 4)"
    using x12 u by (intro mult_mono) simp_all
  with rounds_to_bounds(2) [OF rT x12(1)] e x12(2) have hT: "valof T \<le> 8" by (simp add: algebra_simps)
  have xS: "\<bar>valof T + valof q3\<bar> \<le> 16" using nT n(3) hT h3 by simp
  have "rounds_to (fadd T q3) (valof T + valof q3)"
    using fadd_value [OF fT f3] small_not_overflows [OF xS] by auto
  then show ?thesis unfolding S' by (rule rounds_to_finite)
qed

lemma fle_not_flt: "fle a b \<Longrightarrow> \<not> flt b a"
  by (cases a; cases b) (auto simp: Let_def min.commute)

lemma valof_sc_Precision: "valof sc_Precision = 1 / 2 ^ 52"
proof -
  have "(2::real) powr real_of_int (- 104) = 1 / 2 ^ 104" by (simp add: powr_neg_numeral)
  then show ?thesis unfolding sc_Precision_def by simp
qed


lemma normalize_magnitude_close:
  assumes fin: "is_finite a" "is_finite b" "is_finite c"
    and M: "M = fsqrt (sumsq a b c)" and fM: "is_finite M" and gt: "fgt M sc_Precision"
  shows "approx_one (fsqrt (sumsq (fdiv a M) (fdiv b M) (fdiv c M)))"
proof -
  note u = unit_roundoff_range and e = eta_tiny
  define N2 where "N2 = (valof a)\<^sup>2 + (valof b)\<^sup>2 + (valof c)\<^sup>2"
  have N2: "0 \<le> N2" unfolding N2_def by simp
  have fS0: "is_finite (sumsq a b c)" using fM unfolding M by (rule fsqrt_finiteD)
  note S0 = sumsq_bounds [OF fin fS0, folded N2_def]
  have rM: "rounds_to M (sqrt (valof (sumsq a b c)))"
    using fsqrt_value [OF fS0 S0(1)] finite_not_overflows [OF fM] unfolding M by blast
  have "0 \<le> sqrt (valof (sumsq a b c))" using S0(1) by simp
  note bM = rounds_to_bounds [OF rM this]
  from fM obtain s m x where Mf: "M = Finite s m x" by (cases M) auto
  have "flt sc_Precision M" using gt unfolding fgt_def .
  then have "valof sc_Precision < valof M"
    unfolding Mf sc_Precision_def flt_valof .
  then have Mbig: "1 / 2 ^ 52 < valof M" unfolding valof_sc_Precision .
  then have M0: "0 < valof M" by (simp add: less_trans [rotated])
  then have Mne: "valof M \<noteq> 0" by simp
  have M2: "0 < (valof M)\<^sup>2" using M0 by simp
  note ratio = magnitude_ratio [OF N2 S0(1) S0(2) S0(3) bM Mbig]
  define v1 v2 v3 where "v1 = valof a / valof M" and "v2 = valof b / valof M"
    and "v3 = valof c / valof M"
  have V: "v1\<^sup>2 + v2\<^sup>2 + v3\<^sup>2 = N2 / (valof M)\<^sup>2"
    unfolding v1_def v2_def v3_def N2_def by (simp add: power_divide add_divide_distrib)
  have Vhi: "v1\<^sup>2 + v2\<^sup>2 + v3\<^sup>2 \<le> 1 + 11 / 2 * unit_roundoff"
    unfolding V using ratio(1) M2 by (simp add: pos_divide_le_eq)
  have Vlo: "1 - 11 / 2 * unit_roundoff \<le> v1\<^sup>2 + v2\<^sup>2 + v3\<^sup>2"
    unfolding V using ratio(2) M2 by (simp add: pos_le_divide_eq)
  have nn: "0 \<le> v1\<^sup>2" "0 \<le> v2\<^sup>2" "0 \<le> v3\<^sup>2" by simp_all
  have s4: "v1\<^sup>2 + v2\<^sup>2 + v3\<^sup>2 \<le> 4" using Vhi u by simp
  have q: "v1\<^sup>2 \<le> 16" "v2\<^sup>2 \<le> 16" "v3\<^sup>2 \<le> 16" using s4 nn by linarith+
  then have "\<bar>v1\<bar>\<^sup>2 \<le> 4\<^sup>2" "\<bar>v2\<bar>\<^sup>2 \<le> 4\<^sup>2" "\<bar>v3\<bar>\<^sup>2 \<le> 4\<^sup>2" by simp_all
  then have "\<bar>v1\<bar> \<le> 4" "\<bar>v2\<bar> \<le> 4" "\<bar>v3\<bar> \<le> 4"
    by (auto intro: power2_le_imp_le)
  then have sm: "\<bar>v1\<bar> \<le> 16" "\<bar>v2\<bar> \<le> 16" "\<bar>v3\<bar> \<le> 16" by simp_all
  define w1 w2 w3 where "w1 = fdiv a M" and "w2 = fdiv b M" and "w3 = fdiv c M"
  have r1: "rounds_to w1 v1"
    using fdiv_value [OF fin(1) fM Mne] small_not_overflows [OF sm(1)]
    unfolding w1_def v1_def by blast
  have r2: "rounds_to w2 v2"
    using fdiv_value [OF fin(2) fM Mne] small_not_overflows [OF sm(2)]
    unfolding w2_def v2_def by blast
  have r3: "rounds_to w3 v3"
    using fdiv_value [OF fin(3) fM Mne] small_not_overflows [OF sm(3)]
    unfolding w3_def v3_def by blast
  note fw = rounds_to_finite [OF r1] rounds_to_finite [OF r2] rounds_to_finite [OF r3]
  have ew: "\<bar>valof w1 - v1\<bar> \<le> unit_roundoff * \<bar>v1\<bar> + eta"
    "\<bar>valof w2 - v2\<bar> \<le> unit_roundoff * \<bar>v2\<bar> + eta"
    "\<bar>valof w3 - v3\<bar> \<le> unit_roundoff * \<bar>v3\<bar> + eta"
    using r1 r2 r3 unfolding rounds_to_def by simp_all
  define W where "W = (valof w1)\<^sup>2 + (valof w2)\<^sup>2 + (valof w3)\<^sup>2"
  note Wb = normalized_sumsq [OF Vlo Vhi ew, folded W_def]
  have "W \<le> 2" using Wb(2) u by simp
  then have fS1: "is_finite (sumsq w1 w2 w3)"
    unfolding W_def by (rule sumsq_small [OF fw])
  note S1 = sumsq_bounds [OF fw fS1, folded W_def]
  have "W * (1 + unit_roundoff) ^ 3 \<le> 2 * 2"
    using \<open>W \<le> 2\<close> cube_const(1) Wb(1) u by (intro mult_mono) simp_all
  with S1(3) e have "valof (sumsq w1 w2 w3) \<le> 16\<^sup>2" by simp
  then have "sqrt (valof (sumsq w1 w2 w3)) \<le> 16" by (intro real_le_lsqrt) simp_all
  moreover have z0: "0 \<le> sqrt (valof (sumsq w1 w2 w3))" using S1(1) by simp
  ultimately have "\<bar>sqrt (valof (sumsq w1 w2 w3))\<bar> \<le> 16" by simp
  then have rR: "rounds_to (fsqrt (sumsq w1 w2 w3)) (sqrt (valof (sumsq w1 w2 w3)))"
    using fsqrt_value [OF fS1 S1(1)] small_not_overflows by blast
  note bR = rounds_to_bounds [OF rR z0]
  have "\<bar>valof (fsqrt (sumsq w1 w2 w3)) - 1\<bar> \<le> 8 * unit_roundoff"
    by (rule final_bound [OF Wb S1(2) S1(3) bR])
  then have "\<bar>valof (fsqrt (sumsq w1 w2 w3)) - 1\<bar> \<le> 1 / 2 ^ 50"
    by (simp add: unit_roundoff_def)
  then show ?thesis
    unfolding approx_one_def w1_def w2_def w3_def using rounds_to_finite [OF rR]
    by (simp add: w1_def w2_def w3_def)
qed

section \<open>Properties of Point\<close>



text \<open>
  Claim C10. \<^verbatim>\<open>operator==\<close> is reflexive exactly on the Points whose three coordinates
  are finite: \<open>p == p\<close> holds if and only if no coordinate of \<open>p\<close> is a NaN or an infinity.
\<close>

theorem op_eq_reflexive_iff_finite:
  "op_eq p p = (is_finite (m_X p) \<and> is_finite (m_Y p) \<and> is_finite (m_Z p))"
  by (simp add: op_eq_def nearlyEqual_default_refl)

theorem op_eq_reflexive_iff_finite_witness:
  "op_eq (pt 1 2 3) (pt 1 2 3)
   \<and> \<not> op_eq (Point_ctor NaN (double_of_int 2) (double_of_int 3))
          (Point_ctor NaN (double_of_int 2) (double_of_int 3))
   \<and> \<not> op_eq (Point_ctor (double_of_int 1) (Infinity False) (double_of_int 3))
          (Point_ctor (double_of_int 1) (Infinity False) (double_of_int 3))"
  using op_eq_reflexive_iff_finite [of "pt 1 2 3"]
    op_eq_reflexive_iff_finite [of "Point_ctor NaN (double_of_int 2) (double_of_int 3)"]
    op_eq_reflexive_iff_finite [of "Point_ctor (double_of_int 1) (Infinity False) (double_of_int 3)"]
  by (simp add: pt_def Point_ctor_def fp_eval cong: let_weak_cong)

text \<open>
  Claim C9. Moving from a Point, by move construction or by move assignment into a
  distinct object, leaves the moved-from Point with its three coordinates reset to zero:
  it is the default-constructed Point (and compares equal to it), while the target holds
  the value the source had.
\<close>

theorem moved_from_is_default:
  "this \<noteq> p_Other \<Longrightarrow>
     move_ctor this p_Other \<sigma> p_Other = Point_default
   \<and> move_assign this p_Other \<sigma> p_Other = Point_default
   \<and> move_ctor this p_Other \<sigma> this = \<sigma> p_Other
   \<and> move_assign this p_Other \<sigma> this = \<sigma> p_Other
   \<and> op_eq (move_ctor this p_Other \<sigma> p_Other) Point_default
   \<and> op_eq (move_assign this p_Other \<sigma> p_Other) Point_default"
  by (simp add: move_ctor_def move_assign_def exchange_X_def exchange_Y_def exchange_Z_def
      Point_default_def Point_ctor_def op_eq_def nearlyEqual_default_refl Coordinate_zero_def)

text \<open>The tests \<^verbatim>\<open>MoveConstructor\<close> and \<^verbatim>\<open>AssignmentOperators\<close>: the object at address 1 is moved into the one at address 0.\<close>

theorem moved_from_is_default_witness:
  "(0::addr) \<noteq> 1
   \<and> move_ctor 0 1 (\<lambda>a. pt 7 8 9) 1 = Point_default
   \<and> move_assign 0 1 (\<lambda>a. if a = 1 then pt 10 11 12 else Point_default) 1 = Point_default
   \<and> move_assign 0 1 (\<lambda>a. if a = 1 then pt 10 11 12 else Point_default) 0 = pt 10 11 12"
  using moved_from_is_default [of 0 1 "\<lambda>a. pt 7 8 9"]
    moved_from_is_default [of 0 1 "\<lambda>a. if a = 1 then pt 10 11 12 else Point_default"]
  by simp

text \<open>
  Claim C8, as stated: \<^verbatim>\<open>operator>>\<close> always overwrites the three coordinates, never
  leaves the Point unchanged and never signals by an exception. On a stream whose
  exception mask holds \<^verbatim>\<open>failbit\<close> (\<^verbatim>\<open>stream.exceptions(std::ios::failbit)\<close>), with the
  input \<^verbatim>\<open>7 abc 9\<close> and the Point \<open>(1, 2, 3)\<close>: the first extraction reads 7, the second
  sets \<^verbatim>\<open>failbit\<close> and throws, the operator has no handler, and the exception leaves it
  before the assignments. The Point is still \<open>(1, 2, 3)\<close>.
\<close>

theorem op_extract_throws:
  "op_extract std_extract std_good
     \<lparr>pending = [Scalar (double_of_int 7), Malformed, Scalar (double_of_int 9)],
      unterminated = False, eofbit = False, failbit = False,
      exceptions_eofbit = False, exceptions_failbit = True\<rparr>
     (pt 1 2 3)
   = Throws
       (\<lparr>pending = [Malformed, Scalar (double_of_int 9)],
         unterminated = False, eofbit = False, failbit = True,
         exceptions_eofbit = False, exceptions_failbit = True\<rparr>,
        pt 1 2 3)"
  by (simp add: op_extract_def std_extract_def setstate_def Let_def)

text \<open>
  Claim C8, amended. \<^verbatim>\<open>operator>>\<close> extracts three scalars in the order x, y, z into
  locals that start at zero.

    \<^item> When the three extractions return, it assigns the three locals to the Point
      whether or not the stream is good afterwards: the Point is overwritten.
    \<^item> It throws exactly when one of the three extractions throws, the later ones are
      then not run, and the Point is unchanged.
    \<^item> On a standard stream with an empty exception mask (the default) it never throws,
      and the Point holds the values that were parsed, in order, and zero for every field
      from the first one that is missing or does not parse; a number out of range leaves
      the largest finite double of its sign in its field and zero in the fields after it.
\<close>

theorem op_extract_assigns_unless_thrown:
  "(extract p_Stream Coordinate_zero = Returns (s1, x)
      \<and> extract s1 Coordinate_zero = Returns (s2, y)
      \<and> extract s2 Coordinate_zero = Returns (s3, z)
    \<longrightarrow> op_extract extract good p_Stream p_Point = Returns (s3, Point_ctor x y z))
   \<and> thrown (op_extract extract good p_Stream p_Point)
      = (case extract p_Stream Coordinate_zero of
           Throws a \<Rightarrow> True
         | Returns (s1, x) \<Rightarrow>
             (case extract s1 Coordinate_zero of
                Throws a \<Rightarrow> True
              | Returns (s2, y) \<Rightarrow> thrown (extract s2 Coordinate_zero)))
   \<and> (thrown (op_extract extract good p_Stream p_Point)
    \<longrightarrow> snd (state_after (op_extract extract good p_Stream p_Point)) = p_Point)
   \<and> (\<not> exceptions_eofbit s \<and> \<not> exceptions_failbit s
    \<longrightarrow> \<not> thrown (op_extract std_extract std_good s p_Point)
        \<and> snd (state_after (op_extract std_extract std_good s p_Point)) = spec_Point s)"
proof -
  have general:
    "(extract p_Stream Coordinate_zero = Returns (s1, x)
        \<and> extract s1 Coordinate_zero = Returns (s2, y)
        \<and> extract s2 Coordinate_zero = Returns (s3, z)
      \<longrightarrow> op_extract extract good p_Stream p_Point = Returns (s3, Point_ctor x y z))
     \<and> thrown (op_extract extract good p_Stream p_Point)
        = (case extract p_Stream Coordinate_zero of
             Throws a \<Rightarrow> True
           | Returns (s1, x) \<Rightarrow>
               (case extract s1 Coordinate_zero of
                  Throws a \<Rightarrow> True
                | Returns (s2, y) \<Rightarrow> thrown (extract s2 Coordinate_zero)))
     \<and> (thrown (op_extract extract good p_Stream p_Point)
      \<longrightarrow> snd (state_after (op_extract extract good p_Stream p_Point)) = p_Point)"
    by (auto simp: op_extract_def Point_ctor_def Let_def thrown_def state_after_def
        split: outcome.splits prod.splits)
  have standard:
    "\<not> thrown (op_extract std_extract std_good s p_Point)
     \<and> snd (state_after (op_extract std_extract std_good s p_Point)) = spec_Point s"
    if "\<not> exceptions_eofbit s" "\<not> exceptions_failbit s"
    using that
    by (auto simp: op_extract_def std_extract_def setstate_quiet spec_Point_def Point_ctor_def
        Point_default_def thrown_def state_after_def Let_def numeral_3_eq_3
        split: list.splits token.splits)
  from general standard show ?thesis by blast
qed

text \<open>
  On the input \<^verbatim>\<open>7 abc 9\<close> with the default exception mask the first field is read, the
  second fails and stores zero, the third extraction finds the stream failed and leaves
  its zero: the Point \<open>(1, 2, 3)\<close> becomes \<open>(7, 0, 0)\<close> and the stream has failed. On
  \<^verbatim>\<open>7 1e999 9\<close> it becomes \<open>(7, DBL_MAX, 0)\<close>. With \<^verbatim>\<open>failbit\<close> in the exception mask the
  second extraction of \<^verbatim>\<open>7 abc 9\<close> throws, and the Point is still \<open>(1, 2, 3)\<close>.
\<close>

theorem op_extract_assigns_unless_thrown_witness:
  "std_extract
     \<lparr>pending = [Scalar (double_of_int 7), Malformed, Scalar (double_of_int 9)],
      unterminated = False, eofbit = False, failbit = False,
      exceptions_eofbit = False, exceptions_failbit = False\<rparr> Coordinate_zero
   = Returns
       (\<lparr>pending = [Malformed, Scalar (double_of_int 9)],
         unterminated = False, eofbit = False, failbit = False,
         exceptions_eofbit = False, exceptions_failbit = False\<rparr>, double_of_int 7)
   \<and> std_extract
       \<lparr>pending = [Malformed, Scalar (double_of_int 9)],
        unterminated = False, eofbit = False, failbit = False,
        exceptions_eofbit = False, exceptions_failbit = False\<rparr> Coordinate_zero
     = Returns
         (\<lparr>pending = [Malformed, Scalar (double_of_int 9)],
           unterminated = False, eofbit = False, failbit = True,
           exceptions_eofbit = False, exceptions_failbit = False\<rparr>, Coordinate_zero)
   \<and> std_extract
       \<lparr>pending = [Malformed, Scalar (double_of_int 9)],
        unterminated = False, eofbit = False, failbit = True,
        exceptions_eofbit = False, exceptions_failbit = False\<rparr> Coordinate_zero
     = Returns
         (\<lparr>pending = [Malformed, Scalar (double_of_int 9)],
           unterminated = False, eofbit = False, failbit = True,
           exceptions_eofbit = False, exceptions_failbit = False\<rparr>, Coordinate_zero)
   \<and> op_extract std_extract std_good
       \<lparr>pending = [Scalar (double_of_int 7), Malformed, Scalar (double_of_int 9)],
        unterminated = False, eofbit = False, failbit = False,
        exceptions_eofbit = False, exceptions_failbit = False\<rparr>
       (pt 1 2 3)
     = Returns
         (\<lparr>pending = [Malformed, Scalar (double_of_int 9)],
           unterminated = False, eofbit = False, failbit = True,
           exceptions_eofbit = False, exceptions_failbit = False\<rparr>,
          Point_ctor (double_of_int 7) Coordinate_zero Coordinate_zero)
   \<and> \<not> thrown (op_extract std_extract std_good
         \<lparr>pending = [Scalar (double_of_int 7), OutOfRange False, Scalar (double_of_int 9)],
          unterminated = False, eofbit = False, failbit = False,
          exceptions_eofbit = False, exceptions_failbit = False\<rparr>
         (pt 1 2 3))
   \<and> snd (state_after (op_extract std_extract std_good
         \<lparr>pending = [Scalar (double_of_int 7), OutOfRange False, Scalar (double_of_int 9)],
          unterminated = False, eofbit = False, failbit = False,
          exceptions_eofbit = False, exceptions_failbit = False\<rparr>
         (pt 1 2 3)))
     = Point_ctor (double_of_int 7) (Finite False 9007199254740991 971) Coordinate_zero
   \<and> thrown (op_extract std_extract std_good
         \<lparr>pending = [Scalar (double_of_int 7), Malformed, Scalar (double_of_int 9)],
          unterminated = False, eofbit = False, failbit = False,
          exceptions_eofbit = False, exceptions_failbit = True\<rparr>
         (pt 1 2 3))
   \<and> snd (state_after (op_extract std_extract std_good
         \<lparr>pending = [Scalar (double_of_int 7), Malformed, Scalar (double_of_int 9)],
          unterminated = False, eofbit = False, failbit = False,
          exceptions_eofbit = False, exceptions_failbit = True\<rparr>
         (pt 1 2 3)))
     = pt 1 2 3"
  using
    op_extract_assigns_unless_thrown
      [of std_extract
         "\<lparr>pending = [Scalar (double_of_int 7), Malformed, Scalar (double_of_int 9)],
           unterminated = False, eofbit = False, failbit = False,
           exceptions_eofbit = False, exceptions_failbit = False\<rparr>"
         "\<lparr>pending = [Malformed, Scalar (double_of_int 9)],
           unterminated = False, eofbit = False, failbit = False,
           exceptions_eofbit = False, exceptions_failbit = False\<rparr>"
         "double_of_int 7"
         "\<lparr>pending = [Malformed, Scalar (double_of_int 9)],
           unterminated = False, eofbit = False, failbit = True,
           exceptions_eofbit = False, exceptions_failbit = False\<rparr>"
         Coordinate_zero
         "\<lparr>pending = [Malformed, Scalar (double_of_int 9)],
           unterminated = False, eofbit = False, failbit = True,
           exceptions_eofbit = False, exceptions_failbit = False\<rparr>"
         Coordinate_zero std_good "pt 1 2 3"
         "\<lparr>pending = [Scalar (double_of_int 7), OutOfRange False, Scalar (double_of_int 9)],
           unterminated = False, eofbit = False, failbit = False,
           exceptions_eofbit = False, exceptions_failbit = False\<rparr>"]
    op_extract_assigns_unless_thrown
      [of std_extract
         "\<lparr>pending = [Scalar (double_of_int 7), Malformed, Scalar (double_of_int 9)],
           unterminated = False, eofbit = False, failbit = False,
           exceptions_eofbit = False, exceptions_failbit = True\<rparr>"
         _ _ _ _ _ _ std_good "pt 1 2 3"]
  by (simp add: std_extract_def setstate_def thrown_def spec_Point_def numeric_limits_max_def
      Point_ctor_def numeral_3_eq_3 Let_def)

text \<open>
  Claim C6, as stated: for every Point whose magnitude exceeds the precision threshold,
  the magnitude of \<open>p.normalize()\<close> is approximately 1.0. For \<open>p = (2^600, 0, 0)\<close> the
  square overflows, the magnitude is \<open>+infinity\<close>, which exceeds the threshold, every
  coordinate divided by it is zero, and the normalized vector is the zero vector.
\<close>

theorem normalize_overflow:
  "fgt (magnitude (Point_ctor (Finite False (2 ^ 52) 548) (double_of_int 0) (double_of_int 0)))
       sc_Precision
   \<and> magnitude (Point_ctor (Finite False (2 ^ 52) 548) (double_of_int 0) (double_of_int 0))
       = Infinity False
   \<and> normalize_Point (Point_ctor (Finite False (2 ^ 52) 548) (double_of_int 0) (double_of_int 0))
       = Point_default
   \<and> \<not> approx_one
         (magnitude (normalize_Point
            (Point_ctor (Finite False (2 ^ 52) 548) (double_of_int 0) (double_of_int 0))))"
  by (simp add: approx_one_def geometry_eval fp_eval cong: let_weak_cong)

text \<open>
  Claim C6, amended. For every Point \<open>p\<close>: if \<open>p.magnitude()\<close> is greater than the
  precision threshold then \<open>p.normalize()\<close> has the coordinates of \<open>p\<close> divided by the
  magnitude, and, when the coordinates of \<open>p\<close> and its magnitude are finite (the squares
  did not overflow), the magnitude of \<open>p.normalize()\<close> is finite and within four epsilon
  of 1.0; if \<open>p.magnitude()\<close> is not greater than the threshold (at or below it, or a NaN)
  then \<open>p.normalize()\<close> is the zero vector.
\<close>

theorem normalize_spec:
  "(fgt (magnitude p) sc_Precision \<longrightarrow>
      normalize_Point p = Point_ctor (fdiv (m_X p) (magnitude p)) (fdiv (m_Y p) (magnitude p))
                      (fdiv (m_Z p) (magnitude p)))
   \<and> (fgt (magnitude p) sc_Precision \<and> is_finite (m_X p) \<and> is_finite (m_Y p)
        \<and> is_finite (m_Z p) \<and> is_finite (magnitude p) \<longrightarrow>
      approx_one (magnitude (normalize_Point p)))
   \<and> (\<not> fgt (magnitude p) sc_Precision \<longrightarrow> normalize_Point p = Point_default)
   \<and> (fle (magnitude p) sc_Precision \<longrightarrow> normalize_Point p = Point_default)"
proof -
  have M: "magnitude p = fsqrt (sumsq (m_X p) (m_Y p) (m_Z p))"
    unfolding magnitude_def sumsq_def ..
  have 1: "normalize_Point p = Point_ctor (fdiv (m_X p) (magnitude p)) (fdiv (m_Y p) (magnitude p))
                      (fdiv (m_Z p) (magnitude p))" if "fgt (magnitude p) sc_Precision"
    using that unfolding normalize_Point_def by (simp add: Let_def)
  have 2: "approx_one (magnitude (normalize_Point p))"
    if g: "fgt (magnitude p) sc_Precision" and f: "is_finite (m_X p)" "is_finite (m_Y p)"
      "is_finite (m_Z p)" "is_finite (magnitude p)"
  proof -
    have "magnitude (normalize_Point p)
        = fsqrt (sumsq (fdiv (m_X p) (magnitude p)) (fdiv (m_Y p) (magnitude p))
                   (fdiv (m_Z p) (magnitude p)))"
      unfolding 1 [OF g] by (simp add: magnitude_def sumsq_def Point_ctor_def)
    then show ?thesis using normalize_magnitude_close [OF f(1,2,3) M f(4) g] by simp
  qed
  have 3: "normalize_Point p = Point_default" if "\<not> fgt (magnitude p) sc_Precision"
    using that unfolding normalize_Point_def by (simp add: Let_def)
  have 4: "normalize_Point p = Point_default" if "fle (magnitude p) sc_Precision"
    using fle_not_flt [OF that] 3 unfolding fgt_def by simp
  from 1 2 3 4 show ?thesis by blast
qed

text \<open>
  The test \<^verbatim>\<open>Normalize\<close>: \<open>(1, 2, 2)\<close> has magnitude 3 and normalizes to the doubles
  nearest \<open>1/3, 2/3, 2/3\<close>, of magnitude exactly 1.0. The zero vector has magnitude 0,
  below the threshold, and normalizes to itself.
\<close>

theorem normalize_spec_witness:
  "fgt (magnitude (pt 1 2 2)) sc_Precision
   \<and> is_finite (m_X (pt 1 2 2)) \<and> is_finite (m_Y (pt 1 2 2)) \<and> is_finite (m_Z (pt 1 2 2))
   \<and> is_finite (magnitude (pt 1 2 2))
   \<and> normalize_Point (pt 1 2 2)
       = Point_ctor (Finite False 6004799503160661 (- 54)) (Finite False 6004799503160661 (- 53))
           (Finite False 6004799503160661 (- 53))
   \<and> approx_one (magnitude (normalize_Point (pt 1 2 2)))
   \<and> magnitude (normalize_Point (pt 1 2 2)) = Finite False (2 ^ 52) (- 52)
   \<and> \<not> fgt (magnitude (pt 0 0 0)) sc_Precision
   \<and> fle (magnitude (pt 0 0 0)) sc_Precision
   \<and> normalize_Point (pt 0 0 0) = Point_default"
  using normalize_spec [of "pt 1 2 2"] normalize_spec [of "pt 0 0 0"]
  by (simp add: geometry_eval fp_eval cong: let_weak_cong)

section \<open>Properties of Segment\<close>

text \<open>
  Claim C5, as stated: both parameters are clamped to \<open>[0, 1]\<close>. For the segments
  \<open>(0,0,0)-(2^600,0,0)\<close> and \<open>(-2^600,1,0)-(0,1,0)\<close>, of finite coordinates, \<open>d1\<close> and \<open>d2\<close> are
  \<open>(2^600,0,0)\<close> and \<open>r\<close> is \<open>(2^600,-1,0)\<close>: the products \<open>2^1200\<close> overflow, so \<open>a\<close>, \<open>e\<close>, \<open>f\<close>
  and \<open>b\<close> are \<open>+infinity\<close> and the denominator, \<open>infinity - infinity\<close>, is a NaN. The NaN does
  not exceed the threshold, the parallel branch computes \<open>t = f/e\<close>, \<open>infinity/infinity\<close>,
  a NaN, and \<^verbatim>\<open>std::clamp\<close> returns it: no comparison with a NaN holds. The clamped \<open>t\<close> is
  not in \<open>[0, 1]\<close>, and the value returned is a NaN.
\<close>

theorem clamped_parameter_nan:
  "(let s1 = Segment_ctor (Point_ctor (double_of_int 0) (double_of_int 0) (double_of_int 0))
               (Point_ctor (Finite False (2 ^ 52) 548) (double_of_int 0) (double_of_int 0));
        s2 = Segment_ctor
               (Point_ctor (Finite True (2 ^ 52) 548) (double_of_int 1) (double_of_int 0))
               (Point_ctor (double_of_int 0) (double_of_int 1) (double_of_int 0));
        d1 = op_minus (m_End s1) (m_Start s1);
        d2 = op_minus (m_End s2) (m_Start s2);
        r = op_minus (m_Start s1) (m_Start s2);
        a = dot d1 d1;
        e = dot d2 d2;
        f = dot d2 r;
        b = dot d1 d2;
        denominator = fsub (fmul a e) (fmul b b);
        t = clamp (fdiv f e) sc_ParametricL sc_ParametricH
    in a = Infinity False \<and> e = Infinity False \<and> f = Infinity False \<and> b = Infinity False
       \<and> denominator = NaN
       \<and> \<not> fgt (fabs denominator) sc_Precision
       \<and> fdiv f e = NaN
       \<and> t = NaN
       \<and> \<not> fle sc_ParametricL t
       \<and> \<not> fle t sc_ParametricH
       \<and> closestDistance s1 s2 = NaN)"
  by (simp add: geometry_eval fp_eval cong: let_weak_cong)

text \<open>
  Claim C5, amended. In \<^verbatim>\<open>closestDistance\<close>, with \<open>d1 = end1 - start1\<close>,
  \<open>d2 = end2 - start2\<close>, \<open>r = start1 - start2\<close>, \<open>a = d1.d1\<close>, \<open>e = d2.d2\<close>, \<open>f = d2.r\<close>,
  \<open>b = d1.d2\<close>, \<open>c = d1.r\<close> and \<open>denominator = a*e - b*b\<close>, all in double arithmetic, the
  parameters are \<open>s = (b*f - c*e)/denominator\<close> and \<open>t = (a*f - b*c)/denominator\<close> when
  \<open>|denominator|\<close> exceeds the precision threshold, and \<open>s = 0\<close>, \<open>t = f/e\<close> otherwise. Both
  are then clamped: below 0 gives 0, above 1 gives 1, and a parameter that is not a NaN
  ends in \<open>[0, 1]\<close>. The value returned is the Euclidean distance, the square root of the
  sum of the squared coordinate differences, between \<open>start1 + s*d1\<close> and \<open>start2 + t*d2\<close>.
\<close>

theorem closestDistance_formula:
  "(let d1 = spec_diff (m_End s1) (m_Start s1);
        d2 = spec_diff (m_End s2) (m_Start s2);
        r = spec_diff (m_Start s1) (m_Start s2);
        a = spec_dot d1 d1;
        e = spec_dot d2 d2;
        f = spec_dot d2 r;
        b = spec_dot d1 d2;
        c = spec_dot d1 r;
        denominator = fsub (fmul a e) (fmul b b);
        s = (if fgt (fabs denominator) sc_Precision
             then fdiv (fsub (fmul b f) (fmul c e)) denominator
             else Finite False 0 (- 1074));
        t = (if fgt (fabs denominator) sc_Precision
             then fdiv (fsub (fmul a f) (fmul b c)) denominator
             else fdiv f e)
    in closestDistance s1 s2
         = spec_euclidean (spec_along (m_Start s1) d1 (clamp01 s))
             (spec_along (m_Start s2) d2 (clamp01 t))
       \<and> (\<not> is_nan s \<longrightarrow>
            fle (Finite False 0 (- 1074)) (clamp01 s)
            \<and> fle (clamp01 s) (Finite False (2 ^ 52) (- 52)))
       \<and> (\<not> is_nan t \<longrightarrow>
            fle (Finite False 0 (- 1074)) (clamp01 t)
            \<and> fle (clamp01 t) (Finite False (2 ^ 52) (- 52))))"
proof -
  have "closestDistance s1 s2
          = (let d1 = spec_diff (m_End s1) (m_Start s1);
                 d2 = spec_diff (m_End s2) (m_Start s2);
                 r = spec_diff (m_Start s1) (m_Start s2);
                 a = spec_dot d1 d1;
                 e = spec_dot d2 d2;
                 f = spec_dot d2 r;
                 b = spec_dot d1 d2;
                 c = spec_dot d1 r;
                 denominator = fsub (fmul a e) (fmul b b);
                 s = (if fgt (fabs denominator) sc_Precision
                      then fdiv (fsub (fmul b f) (fmul c e)) denominator
                      else Finite False 0 (- 1074));
                 t = (if fgt (fabs denominator) sc_Precision
                      then fdiv (fsub (fmul a f) (fmul b c)) denominator
                      else fdiv f e)
             in spec_euclidean (spec_along (m_Start s1) d1 (clamp01 s))
                  (spec_along (m_Start s2) d2 (clamp01 t)))"
    unfolding closestDistance_def
    by (simp add: Let_def distance_def dot_def op_minus_def op_plus_def op_times_def
        Point_ctor_def spec_diff_def spec_dot_def spec_along_def spec_euclidean_def
        clamp01_def clamp_def sc_ParametricL_def sc_ParametricH_def Coordinate_zero_def)
  then show ?thesis
    using clamp01_range by (simp add: Let_def)
qed

text \<open>
  The segments \<open>(0,0,0)-(4,0,0)\<close> and \<open>(1,2,3)-(1,6,3)\<close> are not parallel: \<open>a = 16\<close>, \<open>e = 16\<close>,
  \<open>f = -8\<close>, \<open>b = 0\<close>, \<open>c = -4\<close> and \<open>denominator = 256\<close>, so \<open>s = 64/256\<close> is one quarter and
  stays, \<open>t = -128/256\<close> is minus one half and is clamped to 0, and the distance between
  \<open>(1,0,0)\<close> and \<open>(1,2,3)\<close> is the double nearest to the square root of 13. The segments
  \<open>(0,0,0)-(1,0,0)\<close> and \<open>(5,1,0)-(6,1,0)\<close> are parallel: the denominator is 0, \<open>s = 0\<close>,
  \<open>t = f/e = -5/1\<close> is clamped to 0, and the distance between \<open>(0,0,0)\<close> and \<open>(5,1,0)\<close> is the
  double nearest to the square root of 26.
\<close>

theorem closestDistance_formula_witness:
  "fgt (fabs (double_of_int 256)) sc_Precision
   \<and> fdiv (fsub (fmul (double_of_int 0) (double_of_int (- 8)))
               (fmul (double_of_int (- 4)) (double_of_int 16))) (double_of_int 256)
       = Finite False (2 ^ 52) (- 54)
   \<and> fdiv (fsub (fmul (double_of_int 16) (double_of_int (- 8)))
               (fmul (double_of_int 0) (double_of_int (- 4)))) (double_of_int 256)
       = Finite True (2 ^ 52) (- 53)
   \<and> \<not> is_nan (Finite False (2 ^ 52) (- 54))
   \<and> clamp01 (Finite False (2 ^ 52) (- 54)) = Finite False (2 ^ 52) (- 54)
   \<and> \<not> is_nan (Finite True (2 ^ 52) (- 53))
   \<and> clamp01 (Finite True (2 ^ 52) (- 53)) = Finite False 0 (- 1074)
   \<and> closestDistance (seg (0, 0, 0) (4, 0, 0)) (seg (1, 2, 3) (1, 6, 3))
       = Finite False 8118979690322419 (- 51)
   \<and> \<not> fgt (fabs (double_of_int 0)) sc_Precision
   \<and> fdiv (double_of_int (- 5)) (double_of_int 1) = double_of_int (- 5)
   \<and> clamp01 (double_of_int (- 5)) = Finite False 0 (- 1074)
   \<and> closestDistance (seg (0, 0, 0) (1, 0, 0)) (seg (5, 1, 0) (6, 1, 0))
       = Finite False 5740985595342838 (- 50)"
  using
    closestDistance_formula [of "seg (0, 0, 0) (4, 0, 0)" "seg (1, 2, 3) (1, 6, 3)"]
    closestDistance_formula [of "seg (0, 0, 0) (1, 0, 0)" "seg (5, 1, 0) (6, 1, 0)"]
  by (simp add: spec_diff_def spec_dot_def spec_along_def spec_euclidean_def clamp01_def
      Segment_ctor_def Point_ctor_def pt_def seg_def fp_eval cong: let_weak_cong)

text \<open>
  Claim C3. The segments \<open>(0,0,0)-(3,3,3)\<close> and \<open>(3,3,3)-(6,6,6)\<close> share the endpoint
  \<open>(3,3,3)\<close>, so their distance is 0 (the test \<^verbatim>\<open>SharedEndpoint\<close> expects exactly that).
  The segments are parallel: the denominator is 0, the code anchors \<open>s = 0\<close> at the first
  start point, \<open>t = f/e = -1\<close> is clamped to 0, and the result is the distance between the
  two start points, the double nearest to the square root of 27 (about 5.196).
\<close>

theorem shared_endpoint_distance:
  "closestDistance (seg (0, 0, 0) (3, 3, 3)) (seg (3, 3, 3) (6, 6, 6))
     = Finite False 5850347528665472 (- 50)
   \<and> fsqrt (double_of_int 27) = Finite False 5850347528665472 (- 50)
   \<and> \<not> is_zero (closestDistance (seg (0, 0, 0) (3, 3, 3)) (seg (3, 3, 3) (6, 6, 6)))"
  by (simp add: geometry_eval fp_eval cong: let_weak_cong)

text \<open>
  Claim C4, as stated: on the parallel segments \<open>(0,0,0)-(5,0,0)\<close> and \<open>(0,3,1)-(5,3,1)\<close>
  the result is within the double epsilon of 1.0 (the test \<^verbatim>\<open>SkewSegments\<close>). It is not.
\<close>

theorem skew_test_not_one:
  "\<not> expect_near (closestDistance (seg (0, 0, 0) (5, 0, 0)) (seg (0, 3, 1) (5, 3, 1)))
       (double_of_int 1) sc_Precision"
  by (simp add: expect_near_def geometry_eval fp_eval cong: let_weak_cong)

text \<open>
  Claim C4, amended. On the parallel segments \<open>(0,0,0)-(5,0,0)\<close> and \<open>(0,3,1)-(5,3,1)\<close> the
  result is the correctly rounded square root of 10 (about 3.1623, within the rounding
  error of one operation of the real square root of 10): the distance between the start
  points \<open>(0,0,0)\<close> and \<open>(0,3,1)\<close>, which is the distance between the segments.
\<close>

theorem parallel_offset_distance:
  "closestDistance (seg (0, 0, 0) (5, 0, 0)) (seg (0, 3, 1) (5, 3, 1)) = fsqrt (double_of_int 10)
   \<and> fsqrt (double_of_int 10) = Finite False 7120816245988179 (- 51)
   \<and> rounds_to (closestDistance (seg (0, 0, 0) (5, 0, 0)) (seg (0, 3, 1) (5, 3, 1))) (sqrt 10)"
proof -
  have 1: "closestDistance (seg (0, 0, 0) (5, 0, 0)) (seg (0, 3, 1) (5, 3, 1))
      = Finite False 7120816245988179 (- 51)"
    by (simp add: geometry_eval fp_eval cong: let_weak_cong)
  have 2: "fsqrt (double_of_int 10) = Finite False 7120816245988179 (- 51)"
    by (simp add: fp_eval cong: let_weak_cong)
  have ten: "double_of_int 10 = Finite False 5629499534213120 (- 49)"
    by (simp add: fp_eval cong: let_weak_cong)
  have v: "valof (double_of_int 10) = 10"
    unfolding ten by (simp add: powr_neg_numeral)
  have "rounds_to (fsqrt (double_of_int 10)) (sqrt (valof (double_of_int 10)))
      \<or> overflows (fsqrt (double_of_int 10)) (sqrt (valof (double_of_int 10)))"
    by (rule fsqrt_value) (simp_all add: v ten)
  moreover have "\<not> overflows (fsqrt (double_of_int 10)) (sqrt (valof (double_of_int 10)))"
    by (rule finite_not_overflows) (simp add: 2)
  ultimately have "rounds_to (fsqrt (double_of_int 10)) (sqrt 10)" unfolding v by blast
  then show ?thesis using 1 2 by simp
qed

text \<open>
  Claim C1. The result should not depend on which segment is passed first. For the
  parallel segments \<open>(0,0,0)-(1,0,0)\<close> and \<open>(5,1,0)-(6,1,0)\<close> it does: in one order the
  code returns the double nearest to the square root of 26 (about 5.099, the distance
  between the start points), in the other the one nearest to the square root of 17
  (about 4.123, the distance between the segments).
\<close>

theorem closestDistance_asymmetric:
  "closestDistance (seg (0, 0, 0) (1, 0, 0)) (seg (5, 1, 0) (6, 1, 0))
     = Finite False 5740985595342838 (- 50)
   \<and> closestDistance (seg (5, 1, 0) (6, 1, 0)) (seg (0, 0, 0) (1, 0, 0))
     = Finite False 4642204239785223 (- 50)
   \<and> fsqrt (double_of_int 26) = Finite False 5740985595342838 (- 50)
   \<and> fsqrt (double_of_int 17) = Finite False 4642204239785223 (- 50)
   \<and> \<not> expect_near (closestDistance (seg (0, 0, 0) (1, 0, 0)) (seg (5, 1, 0) (6, 1, 0)))
         (closestDistance (seg (5, 1, 0) (6, 1, 0)) (seg (0, 0, 0) (1, 0, 0))) sc_Precision"
  by (simp add: expect_near_def geometry_eval fp_eval cong: let_weak_cong)

text \<open>
  Claim C2. The result should be a non-negative finite scalar for all finite
  coordinates. When the second segment has zero length, here \<open>(0,1,0)-(0,1,0)\<close> against
  \<open>(0,0,0)-(1,0,0)\<close>, then \<open>e = 0\<close> and \<open>f = 0\<close>, the parallel branch divides \<open>0/0\<close>, the
  clamp returns the NaN, and the result is a NaN.
\<close>

theorem closestDistance_degenerate_nan:
  "closestDistance (seg (0, 0, 0) (1, 0, 0)) (seg (0, 1, 0) (0, 1, 0)) = NaN
   \<and> \<not> is_finite (closestDistance (seg (0, 0, 0) (1, 0, 0)) (seg (0, 1, 0) (0, 1, 0)))"
  by (simp add: geometry_eval fp_eval cong: let_weak_cong)

end
